theory Spec2Isabelle
  imports Complex_Main
begin

section \<open>The progress registry of backend/index.js\<close>

text \<open>
  \<^verbatim>\<open>progressEmitters\<close> is a process-wide \<^verbatim>\<open>Map\<close> from a key to an \<^verbatim>\<open>EventEmitter\<close>.
  Emitters are objects with identity: the progress endpoint keeps the emitter it obtained
  in a closure, while the map may since have dropped it and created another one for the
  same key. The model therefore keeps a store of emitters (numbered in creation order)
  beside the map, the map holding emitter numbers.

  Every connection to the progress endpoint registers one listener closure; a listener is
  named by the number of its connection. What \<^verbatim>\<open>res.write\<close> sends down a connection is
  kept as the list of payloads written to it, oldest first.
\<close>

type_synonym key = string

text \<open>JavaScript numbers that reach a payload: a finite double or NaN.\<close>

datatype jsnum = Num rat | NaN

text \<open>Errors as they are thrown, rejected or reported in backend/index.js.\<close>

datatype err =
    ToolNotFound          \<comment> \<open>\<^verbatim>\<open>new Error('yt-dlp not found on PATH')\<close>\<close>
  | MetaExit int          \<comment> \<open>\<^verbatim>\<open>new Error(`yt-dlp exited ${code}: ...`)\<close>\<close>
  | ParseError            \<comment> \<open>what \<^verbatim>\<open>JSON.parse\<close> throws\<close>
  | WrapperError          \<comment> \<open>a rejection of the yt-dlp-exec wrapper\<close>
  | SpawnError            \<comment> \<open>the argument of a child process's 'error' event\<close>
  | ClientDisconnected    \<comment> \<open>\<^verbatim>\<open>new Error('Client disconnected during download.')\<close>\<close>
  | FetchFailed           \<comment> \<open>\<^verbatim>\<open>new Error(`yt-dlp fallback failed: ...`)\<close>\<close>
  | TempMissing           \<comment> \<open>\<^verbatim>\<open>new Error('Expected temp file not found after yt-dlp finished.')\<close>\<close>
  | FfmpegError string    \<comment> \<open>the argument of fluent-ffmpeg's 'error' event\<close>

text \<open>
  The five payload shapes the download handler publishes:
  \<^verbatim>\<open>{status:'starting', progress:0}\<close>,
  \<^verbatim>\<open>{status:'converting', progress:percent, timemark:p.timemark}\<close>,
  \<^verbatim>\<open>{status:'error', error:String(err)}\<close>,
  \<^verbatim>\<open>{status:'done', progress:100}\<close> and \<^verbatim>\<open>{status:'aborted'}\<close>.
  In \<open>Converting\<close> the first argument is \<open>None\<close> for \<^verbatim>\<open>null\<close>, the second is
  \<open>None\<close> for an undefined timemark.
\<close>

datatype payload =
    Starting
  | Converting "jsnum option" "string option"
  | Failure err
  | Done
  | Aborted

record registry =
  progressEmitters :: "key \<rightharpoonup> nat"
  listenersOf :: "nat \<Rightarrow> nat list"
  emitterCount :: nat
  conns :: "nat \<rightharpoonup> key \<times> nat"
  written :: "nat \<Rightarrow> payload list"

definition emptyRegistry :: registry where
  "emptyRegistry =
     \<lparr>progressEmitters = Map.empty, listenersOf = (\<lambda>_. []), emitterCount = 0,
      conns = Map.empty, written = (\<lambda>_. [])\<rparr>"

text \<open>
  \<^verbatim>\<open>function getEmitter(key) {
    if (!progressEmitters.has(key)) progressEmitters.set(key, new EventEmitter());
    return progressEmitters.get(key);
}\<close>
  The result is the emitter together with the registry after the call.
\<close>

definition getEmitter :: "key \<Rightarrow> registry \<Rightarrow> nat \<times> registry" where
  "getEmitter k r =
     (case progressEmitters r k of
        Some e \<Rightarrow> (e, r)
      | None \<Rightarrow>
          (emitterCount r,
           r\<lparr>progressEmitters := (progressEmitters r)(k \<mapsto> emitterCount r),
             listenersOf := (listenersOf r)(emitterCount r := []),
             emitterCount := Suc (emitterCount r)\<rparr>))"

text \<open>
  The listener of connection \<open>l\<close>:
  \<^verbatim>\<open>const onProgress = (payload) => {
    try { res.write(`data: ${JSON.stringify(payload)}\n\n`); } catch (e) { }
};\<close>
\<close>

definition onProgress :: "nat \<Rightarrow> payload \<Rightarrow> registry \<Rightarrow> registry" where
  "onProgress l p r = r\<lparr>written := (written r)(l := written r l @ [p])\<rparr>"

text \<open>
  \<^verbatim>\<open>emitter.emit('progress', payload)\<close> calls the listeners registered at the time of the
  call, in registration order.
\<close>

definition emit :: "nat \<Rightarrow> payload \<Rightarrow> registry \<Rightarrow> registry" where
  "emit e p r = foldl (\<lambda>r' l. onProgress l p r') r (listenersOf r e)"

text \<open>
  \<^verbatim>\<open>function sendProgress(key, payload) {
    const emitter = progressEmitters.get(key);
    if (emitter) emitter.emit('progress', payload);
}\<close>
\<close>

definition sendProgress :: "key \<Rightarrow> payload \<Rightarrow> registry \<Rightarrow> registry" where
  "sendProgress k p r =
     (case progressEmitters r k of
        None \<Rightarrow> r
      | Some e \<Rightarrow> emit e p r)"

text \<open>
  \<^verbatim>\<open>emitter.removeListener\<close> removes the most recently added instance of the listener.
\<close>

definition removeListener :: "nat \<Rightarrow> nat list \<Rightarrow> nat list" where
  "removeListener l ls = rev (remove1 l (rev ls))"

text \<open>
  \<^verbatim>\<open>app.get('/api/progress/:key', ...)\<close>, for connection \<open>l\<close>: the synchronous body
  (the response headers and the 15-second keep-alive timer, which writes comment lines
  only, are left out), and its \<^verbatim>\<open>req.on('close', ...)\<close> callback, which uses the
  \<^verbatim>\<open>key\<close> and \<^verbatim>\<open>emitter\<close> captured by the body:
  \<^verbatim>\<open>emitter.removeListener('progress', onProgress);
if (emitter.listenerCount('progress') === 0) progressEmitters.delete(key);\<close>
\<close>

definition progress_connect :: "nat \<Rightarrow> key \<Rightarrow> registry \<Rightarrow> registry" where
  "progress_connect l k r =
     (case getEmitter k r of
        (e, r1) \<Rightarrow>
          r1\<lparr>listenersOf := (listenersOf r1)(e := listenersOf r1 e @ [l]),
             conns := (conns r1)(l \<mapsto> (k, e))\<rparr>)"

definition progress_close :: "nat \<Rightarrow> registry \<Rightarrow> registry" where
  "progress_close l r =
     (case conns r l of
        None \<Rightarrow> r
      | Some (k, e) \<Rightarrow>
          (let r1 = r\<lparr>listenersOf := (listenersOf r)(e := removeListener l (listenersOf r e)),
                       conns := (conns r)(l := None)\<rparr>
           in if length (listenersOf r1 e) = 0
              then r1\<lparr>progressEmitters := (progressEmitters r1)(k := None)\<rparr>
              else r1))"

section \<open>Numbers, time marks and the progress percentage\<close>

text \<open>
  What the program takes from its surroundings is gathered in one record:
  \<^item> \<open>parseFloat\<close>: the JavaScript built-in, on the strings it is applied to (a result
    of Infinity is outside the model, as \<open>jsnum\<close> has none);
  \<^item> \<open>roundDouble\<close>: the rounding of an exact result to the nearest double, which
    every arithmetic operation on doubles applies (overflow to Infinity is outside the
    model);
  \<^item> \<open>ytDlpExecWrapper\<close>: whether \<^verbatim>\<open>require('yt-dlp-exec')\<close> gave a function;
  \<^item> \<open>now\<close>: the value of \<^verbatim>\<open>Date.now()\<close> when the mp4 branch names its file.
\<close>

record env =
  parseFloat :: "string \<Rightarrow> jsnum"
  roundDouble :: "rat \<Rightarrow> rat"
  ytDlpExecWrapper :: bool
  now :: nat

definition js_mul :: "env \<Rightarrow> jsnum \<Rightarrow> jsnum \<Rightarrow> jsnum" where
  "js_mul env a b =
     (case a of NaN \<Rightarrow> NaN
      | Num x \<Rightarrow> (case b of NaN \<Rightarrow> NaN | Num y \<Rightarrow> Num (roundDouble env (x * y))))"

definition js_add :: "env \<Rightarrow> jsnum \<Rightarrow> jsnum \<Rightarrow> jsnum" where
  "js_add env a b =
     (case a of NaN \<Rightarrow> NaN
      | Num x \<Rightarrow> (case b of NaN \<Rightarrow> NaN | Num y \<Rightarrow> Num (roundDouble env (x + y))))"

text \<open>
  Division is only ever applied to a divisor that is not zero (the caller tests it);
  for a zero divisor JavaScript gives an infinity or NaN, here NaN.
\<close>

definition js_div :: "env \<Rightarrow> jsnum \<Rightarrow> jsnum \<Rightarrow> jsnum" where
  "js_div env a b =
     (case a of NaN \<Rightarrow> NaN
      | Num x \<Rightarrow>
          (case b of NaN \<Rightarrow> NaN
           | Num y \<Rightarrow> if y = 0 then NaN else Num (roundDouble env (x / y))))"

definition Math_floor :: "jsnum \<Rightarrow> jsnum" where
  "Math_floor a = (case a of NaN \<Rightarrow> NaN | Num x \<Rightarrow> Num (of_int \<lfloor>x\<rfloor>))"

definition Math_min :: "jsnum \<Rightarrow> jsnum \<Rightarrow> jsnum" where
  "Math_min a b =
     (case a of NaN \<Rightarrow> NaN
      | Num x \<Rightarrow> (case b of NaN \<Rightarrow> NaN | Num y \<Rightarrow> Num (min x y)))"

text \<open>\<^verbatim>\<open>tm.split(':')\<close>: the pieces between the colons, at least one.\<close>

fun split_colon :: "string \<Rightarrow> string list" where
  "split_colon [] = [[]]"
| "split_colon (c # cs) =
     (if c = CHR '':'' then [] # split_colon cs
      else (case split_colon cs of
              [] \<Rightarrow> [[c]]
            | piece # pieces \<Rightarrow> (c # piece) # pieces))"

text \<open>
  \<^verbatim>\<open>const toSeconds = (tm) => {
    if (!tm) return 0;
    const parts = tm.split(':').map(p => parseFloat(p || 0));
    if (parts.length === 3) return parts[0] * 3600 + parts[1] * 60 + parts[2];
    return 0;
};\<close>
  The time mark is \<open>None\<close> when \<^verbatim>\<open>p.timemark\<close> is undefined. For an empty piece
  \<^verbatim>\<open>parseFloat(0)\<close> is 0.
\<close>

definition toSeconds :: "env \<Rightarrow> string option \<Rightarrow> jsnum" where
  "toSeconds env tm =
     (case tm of
        None \<Rightarrow> Num 0
      | Some t \<Rightarrow>
          if t = [] then Num 0
          else (let parts = map (\<lambda>p. if p = [] then Num 0 else parseFloat env p) (split_colon t)
                in if length parts = 3
                   then js_add env
                          (js_add env (js_mul env (parts ! 0) (Num 3600))
                                      (js_mul env (parts ! 1) (Num 60)))
                          (parts ! 2)
                   else Num 0))"

text \<open>
  The metadata yt-dlp prints, as far as the download handler reads it: \<^verbatim>\<open>meta.title\<close>
  and \<^verbatim>\<open>meta.duration\<close>, each \<open>None\<close> when absent or null.
  \<^verbatim>\<open>const duration = Math.floor(meta.duration || 0);\<close>
\<close>

record meta =
  title :: "string option"
  mduration :: "rat option"

definition durationOf :: "meta \<Rightarrow> int" where
  "durationOf m = \<lfloor>case mduration m of None \<Rightarrow> 0 | Some d \<Rightarrow> if d = 0 then 0 else d\<rfloor>"

text \<open>
  \<^verbatim>\<open>const seconds = toSeconds(p.timemark);
const percent = duration ? Math.min(100, Math.floor((seconds / duration) * 100)) : null;\<close>
\<close>

definition percent :: "env \<Rightarrow> int \<Rightarrow> string option \<Rightarrow> jsnum option" where
  "percent env duration tm =
     (let seconds = toSeconds env tm
      in if duration \<noteq> 0
         then Some (Math_min (Num 100)
                      (Math_floor (js_mul env (js_div env seconds (Num (of_int duration))) (Num 100))))
         else None)"

section \<open>The response, child processes and the temporary directory\<close>

text \<open>
  A header value is a text, the number \<open>n\<close> written by \<^verbatim>\<open>String(n)\<close>, or
  \<^verbatim>\<open>`attachment; filename="${encodeURIComponent(filename)}"`\<close> for a file name.
  A JSON body is \<^verbatim>\<open>{ error }\<close> or \<^verbatim>\<open>{ error, details }\<close>, the details being the
  text of an error.
\<close>

datatype hval = Text string | Decimal nat | Attachment string

datatype body = ErrorBody string "err option"

record response =
  statusCode :: nat
  headers :: "string \<rightharpoonup> hval"
  headersSent :: bool
  jsonBody :: "body option"
  finished :: bool

definition freshResponse :: response where
  "freshResponse =
     \<lparr>statusCode = 200, headers = Map.empty, headersSent = False, jsonBody = None,
      finished = False\<rparr>"

definition setHeader :: "string \<Rightarrow> hval \<Rightarrow> response \<Rightarrow> response" where
  "setHeader n v r = r\<lparr>headers := (headers r)(n \<mapsto> v)\<rparr>"

text \<open>
  \<^verbatim>\<open>res.flushHeaders?.()\<close>: the method exists on the response of Node's http server, so
  the optional call is a call.
\<close>

definition flushHeaders :: "response \<Rightarrow> response" where
  "flushHeaders r = r\<lparr>headersSent := True\<rparr>"

text \<open>\<^verbatim>\<open>res.status(c).json(b)\<close> and \<^verbatim>\<open>res.end()\<close>.\<close>

definition status_json :: "nat \<Rightarrow> body \<Rightarrow> response \<Rightarrow> response" where
  "status_json c b r = r\<lparr>statusCode := c, headersSent := True, jsonBody := Some b, finished := True\<rparr>"

definition res_end :: "response \<Rightarrow> response" where
  "res_end r = r\<lparr>headersSent := True, finished := True\<rparr>"

text \<open>
  The yt-dlp processes started for a request, in the order of their creation; a process
  is named by its position. Three are started by this file with \<^verbatim>\<open>spawn\<close>; the
  fourth is the one the yt-dlp-exec package starts when \<^verbatim>\<open>ytDlpMetadata\<close> calls it
  (the package is a wrapper that runs the yt-dlp program as a child process and resolves
  with what it printed; it is not part of this repository):
  \<^item> \<open>YtDlpJson url\<close>: \<^verbatim>\<open>spawn('yt-dlp', ['-j', videoUrl])\<close>;
  \<^item> \<open>YtDlpDumpSingleJson url\<close>: yt-dlp as run by
    \<^verbatim>\<open>ytDlpExecWrapper(videoUrl, { dumpSingleJson: true })\<close>;
  \<^item> \<open>YtDlpAudio url\<close>:
    \<^verbatim>\<open>spawn('yt-dlp', ['-f', 'bestaudio', '-o', '-', '--no-playlist', url])\<close>;
  \<^item> \<open>YtDlpMerge path url\<close>:
    \<^verbatim>\<open>spawn('yt-dlp', ['-f', 'bv*+ba/b', '--merge-output-format', 'mp4', '-o', tempFilePath, '--no-playlist', url])\<close>.
  The ffmpeg process belongs to the fluent-ffmpeg object, which starts and stops it
  itself; it is not in the table. \<open>signals\<close> are the signals delivered to a process;
  \<^verbatim>\<open>kill\<close> delivers nothing to a process that has exited.
\<close>

datatype path = TempFile string nat

datatype command =
    YtDlpJson string
  | YtDlpDumpSingleJson string
  | YtDlpAudio string
  | YtDlpMerge path string

datatype signal = SIGTERM | SIGKILL

record proc =
  command :: command
  signals :: "signal list"
  exited :: bool

definition spawn :: "command \<Rightarrow> proc list \<Rightarrow> nat \<times> proc list" where
  "spawn c ps = (length ps, ps @ [\<lparr>command = c, signals = [], exited = False\<rparr>])"

definition kill :: "nat \<Rightarrow> signal \<Rightarrow> proc list \<Rightarrow> proc list" where
  "kill pid sg ps =
     (if pid < length ps \<and> \<not> exited (ps ! pid)
      then ps[pid := (ps ! pid)\<lparr>signals := signals (ps ! pid) @ [sg]\<rparr>]
      else ps)"

definition markExited :: "nat \<Rightarrow> proc list \<Rightarrow> proc list" where
  "markExited pid ps = (if pid < length ps then ps[pid := (ps ! pid)\<lparr>exited := True\<rparr>] else ps)"

text \<open>
  The downloads directory: the size of each file present, and the log of what was
  written and unlinked, oldest first. \<open>TempFile stem stamp\<close> is
  \<^verbatim>\<open>path.join(downloadsDir, `${stem}-${stamp}.mp4`)\<close>.
  \<^verbatim>\<open>fs.unlinkSync\<close> throws when the file is not there.
\<close>

datatype fsop = Wrote path nat | Unlinked path

datatype fserror = ENOENT

record filesystem =
  present :: "path \<rightharpoonup> nat"
  fsLog :: "fsop list"

definition existsSync :: "path \<Rightarrow> filesystem \<Rightarrow> bool" where
  "existsSync p f = (present f p \<noteq> None)"

definition unlinkSync :: "path \<Rightarrow> filesystem \<Rightarrow> fserror + filesystem" where
  "unlinkSync p f =
     (case present f p of
        None \<Rightarrow> Inl ENOENT
      | Some _ \<Rightarrow> Inr (f\<lparr>present := (present f)(p := None), fsLog := fsLog f @ [Unlinked p]\<rparr>))"

definition writeFile :: "path \<Rightarrow> nat \<Rightarrow> filesystem \<Rightarrow> filesystem" where
  "writeFile p n f = f\<lparr>present := (present f)(p \<mapsto> n), fsLog := fsLog f @ [Wrote p n]\<rparr>"

text \<open>
  \<^verbatim>\<open>try { if (fs.existsSync(tempFilePath)) fs.unlinkSync(tempFilePath); } catch (e) { console.warn(...); }\<close>
  This statement stands three times in the file: in the 'close' callback of the
  download process, in \<^verbatim>\<open>cleanupTemp\<close> and (with the test outside the \<^verbatim>\<open>try\<close>) in
  the \<^verbatim>\<open>catch\<close> block of the handler.
\<close>

definition unlinkIfExists :: "path \<Rightarrow> filesystem \<Rightarrow> filesystem" where
  "unlinkIfExists p f =
     (if existsSync p f
      then (case unlinkSync p f of Inl _ \<Rightarrow> f | Inr f' \<Rightarrow> f')
      else f)"

section \<open>The download handler\<close>

text \<open>
  \<^verbatim>\<open>app.get('/api/download/:id', async (req, res) => ...)\<close> runs in pieces: the
  synchronous start, then one callback per event. The state holds what the pieces share:
  the process-wide registry, process table and directory, the response, and the
  handler's variables. \<open>stage\<close> says which callbacks are registered:
  \<^item> \<open>AwaitMeta\<close>: suspended in \<^verbatim>\<open>await ytDlpMetadata(url)\<close>; none registered;
  \<^item> \<open>Rejected\<close>: a 400 was sent; none registered;
  \<^item> \<open>Mp3Streaming\<close>: the mp3 branch has returned; the ffmpeg callbacks and its
    'close' callback on the request are registered;
  \<^item> \<open>Mp4Downloading\<close>: suspended in the \<^verbatim>\<open>await\<close> of the download promise;
  \<^item> \<open>Mp4Delivering\<close>: the file is piped to the response; then \<open>Mp4Completed\<close>,
    \<open>Mp4ReadFailed\<close> or \<open>Mp4Disconnected\<close> once the read stream has ended, the read
    has failed or the client has closed (whichever came first; the same callbacks stay
    registered in all four);
  \<^item> \<open>Failed\<close>: the \<^verbatim>\<open>catch\<close> block has run;
  \<^item> \<open>Threw\<close>: the handler threw before it entered its \<^verbatim>\<open>try\<close>; none registered.
\<close>

datatype stage =
    AwaitMeta | Rejected | Mp3Streaming
  | Mp4Downloading | Mp4Delivering | Mp4Completed | Mp4ReadFailed | Mp4Disconnected
  | Failed | Threw

record state =
  reg :: registry
  procs :: "proc list"
  fs :: filesystem
  res :: response
  stage :: stage
  videoId :: string
  format :: string
  queryKey :: "string option"
  metaProc :: "nat option"
  duration :: int
  clientKey :: key
  filename :: string
  ytProc :: "nat option"
  tempFilePath :: "path option"
  dlProc :: "nat option"
  abortedDuringDownload :: bool
  statSize :: "nat option"

definition delivering :: "stage \<Rightarrow> bool" where
  "delivering st = (st = Mp4Delivering \<or> st = Mp4Completed \<or> st = Mp4ReadFailed \<or> st = Mp4Disconnected)"

text \<open>\<^verbatim>\<open>String.prototype.toLowerCase\<close> on the letters A to Z; other bytes stay.\<close>

definition lowerChar :: "char \<Rightarrow> char" where
  "lowerChar c =
     (case map_of (zip ''ABCDEFGHIJKLMNOPQRSTUVWXYZ'' ''abcdefghijklmnopqrstuvwxyz'') c of
        None \<Rightarrow> c
      | Some d \<Rightarrow> d)"

definition toLowerCase :: "string \<Rightarrow> string" where
  "toLowerCase s = map lowerChar s"

definition urlOf :: "string \<Rightarrow> string" where
  "urlOf vid = ''https://www.youtube.com/watch?v='' @ vid"

text \<open>
  \<^verbatim>\<open>const format = (req.query.format || 'mp3').toLowerCase();\<close>
  The query parameter is \<open>None\<close> when absent.
\<close>

definition formatOf :: "string option \<Rightarrow> string" where
  "formatOf q = toLowerCase (case q of None \<Rightarrow> ''mp3'' | Some v \<Rightarrow> if v = [] then ''mp3'' else v)"

text \<open>
  The handler up to \<^verbatim>\<open>await ytDlpMetadata(url)\<close>, for a format parameter that is
  absent or a string, and the start of \<^verbatim>\<open>ytDlpMetadata\<close>: with the wrapper it calls
  \<^verbatim>\<open>ytDlpExecWrapper(videoUrl, { dumpSingleJson: true })\<close>, else it spawns
  \<^verbatim>\<open>yt-dlp -j\<close>; either way one yt-dlp process runs for the lookup, and \<open>metaProc\<close>
  names it. The arguments are the registry and the directory as the request finds them,
  \<^verbatim>\<open>req.params.id\<close>, \<^verbatim>\<open>req.query.format\<close> and \<^verbatim>\<open>req.query.key\<close>.
\<close>

definition download_begin ::
  "env \<Rightarrow> registry \<Rightarrow> (path \<rightharpoonup> nat) \<Rightarrow> string \<Rightarrow> string option \<Rightarrow> string option \<Rightarrow> state" where
  "download_begin env r dir vid qformat qkey =
     \<lparr>reg = r,
      procs = [\<lparr>command = (if ytDlpExecWrapper env then YtDlpDumpSingleJson (urlOf vid)
                           else YtDlpJson (urlOf vid)),
                signals = [], exited = False\<rparr>],
      fs = \<lparr>present = dir, fsLog = []\<rparr>,
      res = freshResponse,
      stage = AwaitMeta,
      videoId = vid,
      format = formatOf qformat,
      queryKey = qkey,
      metaProc = Some 0,
      duration = 0,
      clientKey = [],
      filename = [],
      ytProc = None,
      tempFilePath = None,
      dlProc = None,
      abortedDuringDownload = False,
      statSize = None\<rparr>"

text \<open>
  \<^verbatim>\<open>req.query.format\<close> as Express delivers it: absent, a string, or (for a repeated or
  bracketed parameter) an array or an object. An array or object is truthy and has no
  \<^verbatim>\<open>toLowerCase\<close>, so
  \<^verbatim>\<open>const format = (req.query.format || 'mp3').toLowerCase();\<close>
  throws a TypeError. The statement stands before the \<^verbatim>\<open>try\<close> and before the call
  of \<^verbatim>\<open>ytDlpMetadata\<close>: the handler has started no process and writes nothing to
  the response (what Express then does with the rejected promise of the handler is not
  modelled).
\<close>

datatype qvalue = QAbsent | QString string | QOther

definition download_handler ::
  "env \<Rightarrow> registry \<Rightarrow> (path \<rightharpoonup> nat) \<Rightarrow> string \<Rightarrow> qvalue \<Rightarrow> string option \<Rightarrow> state" where
  "download_handler env r dir vid q qkey =
     (case q of
        QAbsent \<Rightarrow> download_begin env r dir vid None qkey
      | QString v \<Rightarrow> download_begin env r dir vid (Some v) qkey
      | QOther \<Rightarrow>
          \<lparr>reg = r,
           procs = [],
           fs = \<lparr>present = dir, fsLog = []\<rparr>,
           res = freshResponse,
           stage = Threw,
           videoId = vid,
           format = [],
           queryKey = qkey,
           metaProc = None,
           duration = 0,
           clientKey = [],
           filename = [],
           ytProc = None,
           tempFilePath = None,
           dlProc = None,
           abortedDuringDownload = False,
           statSize = None\<rparr>)"

text \<open>
  How the promise of \<^verbatim>\<open>ytDlpMetadata\<close> settles. With the wrapper: it resolves with
  the parsed output (\<open>None\<close> when \<^verbatim>\<open>JSON.parse\<close> throws) or rejects. Without: the
  process emits 'error', or 'close' with its exit code and the output it printed.
\<close>

datatype metaOutcome =
    WrapperResolved "meta option"
  | WrapperRejected
  | ProcError
  | ProcClose int "meta option"

definition ytDlpMetadata_result :: "metaOutcome \<Rightarrow> err + meta" where
  "ytDlpMetadata_result out =
     (case out of
        WrapperResolved parsed \<Rightarrow> (case parsed of None \<Rightarrow> Inl ParseError | Some m \<Rightarrow> Inr m)
      | WrapperRejected \<Rightarrow> Inl WrapperError
      | ProcError \<Rightarrow> Inl ToolNotFound
      | ProcClose code parsed \<Rightarrow>
          if code \<noteq> 0 then Inl (MetaExit code)
          else (case parsed of None \<Rightarrow> Inl ParseError | Some m \<Rightarrow> Inr m))"

text \<open>
  \<^verbatim>\<open>const safeTitle = (meta.title || 'download').replace(/[^\w\s.-]/gi, '').substring(0, 60);\<close>
  and \<^verbatim>\<open>safeTitle.replace(/\s+/g, '_')\<close>. Titles are byte strings here; of the white
  space that \<^verbatim>\<open>\s\<close> matches, the six ASCII characters are modelled.
\<close>

definition isWord :: "char \<Rightarrow> bool" where
  "isWord c = (c \<in> set ''abcdefghijklmnopqrstuvwxyzABCDEFGHIJKLMNOPQRSTUVWXYZ0123456789_'')"

definition isSpace :: "char \<Rightarrow> bool" where
  "isSpace c = (c \<in> set [CHR '' '', CHR 0x09, CHR 0x0A, CHR 0x0B, CHR 0x0C, CHR 0x0D])"

definition safeTitleOf :: "meta \<Rightarrow> string" where
  "safeTitleOf m =
     take 60 (filter (\<lambda>c. isWord c \<or> isSpace c \<or> c = CHR ''.'' \<or> c = CHR ''-'')
                (case title m of None \<Rightarrow> ''download'' | Some t \<Rightarrow> if t = [] then ''download'' else t))"

fun underscores :: "bool \<Rightarrow> string \<Rightarrow> string" where
  "underscores inRun [] = []"
| "underscores inRun (c # cs) =
     (if isSpace c
      then (if inRun then underscores True cs else CHR ''_'' # underscores True cs)
      else c # underscores False cs)"

text \<open>
  \<^verbatim>\<open>const clientKey = (req.query.key) ? String(req.query.key) : `${id}_${format}`;\<close>
\<close>

definition clientKeyOf :: "string option \<Rightarrow> string \<Rightarrow> string \<Rightarrow> key" where
  "clientKeyOf qkey vid fmt =
     (case qkey of
        None \<Rightarrow> vid @ ''_'' @ fmt
      | Some k \<Rightarrow> if k = [] then vid @ ''_'' @ fmt else k)"

text \<open>
  The \<^verbatim>\<open>catch\<close> block of the handler:
  \<^verbatim>\<open>try { ytProc && ytProc.kill(); } catch (e) { }
if (tempFilePath && fs.existsSync(tempFilePath)) {
    try { fs.unlinkSync(tempFilePath); } catch (e) { console.warn(...); }
}
if (!res.headersSent) {
    res.status(500).json({ error: 'Download failed', details: String(err).slice(0, 500) });
} else {
    try { res.end(); } catch (e) { }
}\<close>
\<close>

definition catch_block :: "err \<Rightarrow> state \<Rightarrow> state" where
  "catch_block e s =
     s\<lparr>procs := (case ytProc s of None \<Rightarrow> procs s | Some pid \<Rightarrow> kill pid SIGTERM (procs s)),
       fs := (case tempFilePath s of None \<Rightarrow> fs s | Some p \<Rightarrow> unlinkIfExists p (fs s)),
       res := (if \<not> headersSent (res s)
               then status_json 500 (ErrorBody ''Download failed'' (Some e)) (res s)
               else res_end (res s)),
       stage := Failed\<rparr>"

text \<open>
  The mp3 branch, up to its \<^verbatim>\<open>return\<close>: six headers, \<^verbatim>\<open>flushHeaders\<close>,
  \<^verbatim>\<open>getEmitter(clientKey)\<close>, the spawn of \<^verbatim>\<open>ytProc\<close>. Building the ffmpeg command,
  piping it to the response and registering the callbacks change nothing in the state
  but the stage.
\<close>

definition mp3_branch :: "string \<Rightarrow> state \<Rightarrow> state" where
  "mp3_branch safeTitle s =
     (case getEmitter (clientKey s) (reg s) of
        (emitter, g) \<Rightarrow>
          (case spawn (YtDlpAudio (urlOf (videoId s))) (procs s) of
             (pid, ps) \<Rightarrow>
               s\<lparr>filename := safeTitle @ ''.mp3'',
                 res := flushHeaders
                          (setHeader ''Access-Control-Expose-Headers'' (Text ''Content-Disposition'')
                          (setHeader ''Connection'' (Text ''keep-alive'')
                          (setHeader ''Transfer-Encoding'' (Text ''chunked'')
                          (setHeader ''Cache-Control'' (Text ''no-cache'')
                          (setHeader ''Content-Type'' (Text ''audio/mpeg'')
                          (setHeader ''Content-Disposition'' (Attachment (safeTitle @ ''.mp3''))
                             (res s))))))),
                 reg := g,
                 procs := ps,
                 ytProc := Some pid,
                 stage := Mp3Streaming\<rparr>))"

text \<open>
  The mp4 branch, up to the \<^verbatim>\<open>await\<close> of the download promise: the name of the
  temporary file, the 'close' callback on the request, the spawn of \<^verbatim>\<open>dlProc\<close>.
\<close>

definition mp4_branch :: "env \<Rightarrow> string \<Rightarrow> state \<Rightarrow> state" where
  "mp4_branch env safeTitle s =
     (let p = TempFile (underscores False safeTitle) (now env)
      in case spawn (YtDlpMerge p (urlOf (videoId s))) (procs s) of
           (pid, ps) \<Rightarrow>
             s\<lparr>filename := safeTitle @ ''.mp4'',
               tempFilePath := Some p,
               procs := ps,
               dlProc := Some pid,
               stage := Mp4Downloading\<rparr>)"

text \<open>
  The handler from the metadata to the end of the \<^verbatim>\<open>if\<close> on the format:
  \<^verbatim>\<open>const duration = Math.floor(meta.duration || 0);
if (duration > 3600) {
    return res.status(400).json({ error: 'Video too long. Maximum 1 hour allowed.' });
}
...
if (format === 'mp3') { ... } else if (format === 'mp4') { ... }
else { return res.status(400).json({ error: 'Invalid format. Use mp3 or mp4.' }); }\<close>
\<close>

definition on_metadata :: "env \<Rightarrow> meta \<Rightarrow> state \<Rightarrow> state" where
  "on_metadata env m s =
     (if durationOf m > 3600
      then s\<lparr>res := status_json 400 (ErrorBody ''Video too long. Maximum 1 hour allowed.'' None) (res s),
             stage := Rejected\<rparr>
      else (let s1 = s\<lparr>duration := durationOf m,
                        clientKey := clientKeyOf (queryKey s) (videoId s) (format s)\<rparr>
            in if format s = ''mp3'' then mp3_branch (safeTitleOf m) s1
               else if format s = ''mp4'' then mp4_branch env (safeTitleOf m) s1
               else s1\<lparr>res := status_json 400 (ErrorBody ''Invalid format. Use mp3 or mp4.'' None) (res s1),
                       stage := Rejected\<rparr>))"

subsection \<open>The callbacks of the mp3 branch\<close>

text \<open>
  \<^verbatim>\<open>.on('start', cmd => { sendProgress(clientKey, { status: 'starting', progress: 0 }); })\<close>
\<close>

definition ff_on_start :: "state \<Rightarrow> state" where
  "ff_on_start s = s\<lparr>reg := sendProgress (clientKey s) Starting (reg s)\<rparr>"

text \<open>
  \<^verbatim>\<open>.on('progress', p => {
    const seconds = toSeconds(p.timemark);
    const percent = duration ? Math.min(100, Math.floor((seconds / duration) * 100)) : null;
    sendProgress(clientKey, { status: 'converting', progress: percent, timemark: p.timemark });
})\<close>
\<close>

definition ff_on_progress :: "env \<Rightarrow> string option \<Rightarrow> state \<Rightarrow> state" where
  "ff_on_progress env tm s =
     s\<lparr>reg := sendProgress (clientKey s) (Converting (percent env (duration s) tm) tm) (reg s)\<rparr>"

text \<open>
  \<^verbatim>\<open>.on('error', (err, stdout, stderr) => {
    try { ytProc.kill(); } catch (_) { }
    sendProgress(clientKey, { status: 'error', error: String(err) });
    if (!res.headersSent) {
        res.status(500).json({ error: 'Conversion failed', details: String(err) });
    } else {
        try { res.end(); } catch (_) { }
    }
})\<close>
  \<^verbatim>\<open>kill()\<close> without an argument sends SIGTERM.
\<close>

definition ff_on_error :: "err \<Rightarrow> state \<Rightarrow> state" where
  "ff_on_error e s =
     s\<lparr>procs := (case ytProc s of None \<Rightarrow> procs s | Some pid \<Rightarrow> kill pid SIGTERM (procs s)),
       reg := sendProgress (clientKey s) (Failure e) (reg s),
       res := (if \<not> headersSent (res s)
               then status_json 500 (ErrorBody ''Conversion failed'' (Some e)) (res s)
               else res_end (res s))\<rparr>"

text \<open>
  \<^verbatim>\<open>.on('end', () => { sendProgress(clientKey, { status: 'done', progress: 100 }); })\<close>
\<close>

definition ff_on_end :: "state \<Rightarrow> state" where
  "ff_on_end s = s\<lparr>reg := sendProgress (clientKey s) Done (reg s)\<rparr>"

text \<open>
  The pipe \<^verbatim>\<open>ff.pipe(res, { end: true })\<close> ends the response when ffmpeg's output
  ends. That is an event of its own: it can come before the 'end' or 'error' of the
  ffmpeg command, and the request's 'close' can come between them.
\<close>

definition ff_pipe_end :: "state \<Rightarrow> state" where
  "ff_pipe_end s = s\<lparr>res := res_end (res s)\<rparr>"

text \<open>
  \<^verbatim>\<open>req.on('close', () => {
    if (req.aborted || res.finished) {
        sendProgress(clientKey, { status: 'aborted' });
        try { ytProc && ytProc.kill('SIGKILL'); } catch (_) { }
    }
});\<close>
  The argument is \<^verbatim>\<open>req.aborted\<close>.
\<close>

definition req_on_close_mp3 :: "bool \<Rightarrow> state \<Rightarrow> state" where
  "req_on_close_mp3 aborted s =
     (if aborted \<or> finished (res s)
      then s\<lparr>reg := sendProgress (clientKey s) Aborted (reg s),
             procs := (case ytProc s of None \<Rightarrow> procs s | Some pid \<Rightarrow> kill pid SIGKILL (procs s))\<rparr>
      else s)"

subsection \<open>The callbacks of the mp4 branch\<close>

text \<open>
  \<^verbatim>\<open>const onClientCloseWhileDownloading = () => {
    if (dlProc) {
        abortedDuringDownload = true;
        try { dlProc.kill('SIGKILL'); } catch (e) { }
    }
};\<close>
\<close>

definition onClientCloseWhileDownloading :: "state \<Rightarrow> state" where
  "onClientCloseWhileDownloading s =
     (case dlProc s of
        None \<Rightarrow> s
      | Some pid \<Rightarrow> s\<lparr>abortedDuringDownload := True, procs := kill pid SIGKILL (procs s)\<rparr>)"

text \<open>
  \<^verbatim>\<open>const cleanupTemp = () => {
    try { if (fs.existsSync(tempFilePath)) fs.unlinkSync(tempFilePath); } catch (e) { ... }
};\<close>
\<close>

definition cleanupTemp :: "state \<Rightarrow> state" where
  "cleanupTemp s =
     (case tempFilePath s of
        None \<Rightarrow> s
      | Some p \<Rightarrow> s\<lparr>fs := unlinkIfExists p (fs s)\<rparr>)"

text \<open>
  The rest of the handler after the download promise has resolved:
  \<^verbatim>\<open>if (!fs.existsSync(tempFilePath)) {
    throw new Error('Expected temp file not found after yt-dlp finished.');
}
const stat = fs.statSync(tempFilePath);
res.setHeader('Content-Disposition', ...);
res.setHeader('Content-Type', 'video/mp4');
res.setHeader('Content-Length', String(stat.size));
res.setHeader('Cache-Control', 'no-cache');
res.setHeader('Access-Control-Expose-Headers', 'Content-Disposition, Content-Length');\<close>
  then the read stream, its callbacks and the pipe.
\<close>

definition after_download :: "state \<Rightarrow> state" where
  "after_download s =
     (case tempFilePath s of
        None \<Rightarrow> s
      | Some p \<Rightarrow>
          (case present (fs s) p of
             None \<Rightarrow> catch_block TempMissing s
           | Some sz \<Rightarrow>
               s\<lparr>statSize := Some sz,
                 res := setHeader ''Access-Control-Expose-Headers'' (Text ''Content-Disposition, Content-Length'')
                          (setHeader ''Cache-Control'' (Text ''no-cache'')
                          (setHeader ''Content-Length'' (Decimal sz)
                          (setHeader ''Content-Type'' (Text ''video/mp4'')
                          (setHeader ''Content-Disposition'' (Attachment (filename s))
                             (res s))))),
                 stage := Mp4Delivering\<rparr>))"

text \<open>
  The download promise settles once: \<^verbatim>\<open>reject\<close> and \<^verbatim>\<open>resolve\<close> do nothing unless
  the handler is still suspended in the \<^verbatim>\<open>await\<close>. A rejection continues in the
  \<^verbatim>\<open>catch\<close> block, a resolution after the \<^verbatim>\<open>await\<close>.
\<close>

definition reject :: "err \<Rightarrow> state \<Rightarrow> state" where
  "reject e s = (if stage s = Mp4Downloading then catch_block e s else s)"

definition resolve :: "state \<Rightarrow> state" where
  "resolve s = (if stage s = Mp4Downloading then after_download s else s)"

text \<open>
  \<^verbatim>\<open>dlProc.on('error', (e) => { reject(e); });\<close>
\<close>

definition dlProc_on_error :: "state \<Rightarrow> state" where
  "dlProc_on_error s = reject SpawnError s"

text \<open>
  \<^verbatim>\<open>dlProc.on('close', (code) => {
    if (abortedDuringDownload) {
        try { if (fs.existsSync(tempFilePath)) fs.unlinkSync(tempFilePath); } catch (e) { ... }
        return reject(new Error('Client disconnected during download.'));
    }
    if (code !== 0) {
        return reject(new Error(`yt-dlp fallback failed: ...`));
    }
    resolve();
});\<close>
\<close>

definition dlProc_on_close :: "int \<Rightarrow> state \<Rightarrow> state" where
  "dlProc_on_close code s =
     (if abortedDuringDownload s then reject ClientDisconnected (cleanupTemp s)
      else if code \<noteq> 0 then reject FetchFailed s
      else resolve s)"

text \<open>
  \<^verbatim>\<open>readStream.on('error', (e) => { cleanupTemp(); });
readStream.on('end', () => { cleanupTemp(); });
req.on('close', () => {
    try { readStream.destroy(); } catch (_) { }
    cleanupTemp();
});\<close>
  The pipe \<^verbatim>\<open>readStream.pipe(res)\<close> ends the response when the read stream ends. The
  stage keeps which of the three came first.
\<close>

definition settle :: "stage \<Rightarrow> state \<Rightarrow> state" where
  "settle st s = (if stage s = Mp4Delivering then s\<lparr>stage := st\<rparr> else s)"

definition readStream_on_error :: "state \<Rightarrow> state" where
  "readStream_on_error s = settle Mp4ReadFailed (cleanupTemp s)"

definition readStream_on_end :: "state \<Rightarrow> state" where
  "readStream_on_end s = settle Mp4Completed ((cleanupTemp s)\<lparr>res := res_end (res s)\<rparr>)"

definition req_on_close_mp4 :: "state \<Rightarrow> state" where
  "req_on_close_mp4 s = settle Mp4Disconnected (cleanupTemp s)"

subsection \<open>Events\<close>

text \<open>
  What can happen to a request once the handler has started:
  \<^item> \<open>MetaSettled\<close>: the promise of \<^verbatim>\<open>ytDlpMetadata\<close> settles (its process
    is gone by then);
  \<^item> \<open>ReqClose\<close>: the request emits 'close'; the argument is \<^verbatim>\<open>req.aborted\<close>;
  \<^item> \<open>YtProcError\<close> (only logged) and \<open>YtProcExit\<close> (no callback): the mp3 fetch
    process fails to start, or exits;
  \<^item> \<open>FfStart\<close>, \<open>FfProgress\<close>, \<open>FfError\<close>, \<open>FfEnd\<close>: the events of the ffmpeg
    command; \<open>FfPipeEnd\<close>: its output has ended and the pipe ends the response;
  \<^item> \<open>DlWrites n\<close>: the download process writes its output file, which then has
    \<open>n\<close> bytes; it can do so until the handler has seen it close or fail (of the
    files yt-dlp may write, the model follows the one named by \<^verbatim>\<open>-o\<close>, which is the
    only one the handler ever tests, reads or unlinks);
  \<^item> \<open>DlError\<close>, \<open>DlClose code\<close>: the download process emits 'error' (it could
    not be started) or 'close'; either way it is gone;
  \<^item> \<open>ReadError\<close>, \<open>ReadEnd\<close>: the read stream of the temporary file;
  \<^item> \<open>SseConnect l k\<close>, \<open>SseClose l\<close>: a connection to the progress endpoint opens
    or closes.
  An event for which no callback is registered in the current stage changes nothing.
\<close>

datatype event =
    MetaSettled metaOutcome
  | ReqClose bool
  | YtProcError
  | YtProcExit
  | FfStart
  | FfProgress "string option"
  | FfError err
  | FfEnd
  | FfPipeEnd
  | DlWrites nat
  | DlError
  | DlClose int
  | ReadError
  | ReadEnd
  | SseConnect nat key
  | SseClose nat

definition exitProc :: "nat option \<Rightarrow> state \<Rightarrow> state" where
  "exitProc p s = (case p of None \<Rightarrow> s | Some pid \<Rightarrow> s\<lparr>procs := markExited pid (procs s)\<rparr>)"

definition dlRunning :: "state \<Rightarrow> bool" where
  "dlRunning s =
     (case dlProc s of
        None \<Rightarrow> False
      | Some pid \<Rightarrow> pid < length (procs s) \<and> \<not> exited (procs s ! pid))"

fun step :: "env \<Rightarrow> event \<Rightarrow> state \<Rightarrow> state" where
  "step env (MetaSettled out) s =
     (if stage s = AwaitMeta
      then (case ytDlpMetadata_result out of
              Inl e \<Rightarrow> catch_block e (exitProc (metaProc s) s)
            | Inr m \<Rightarrow> on_metadata env m (exitProc (metaProc s) s))
      else s)"
| "step env (ReqClose aborted) s =
     (if stage s = Mp3Streaming then req_on_close_mp3 aborted s
      else if stage s = Mp4Downloading \<or> (stage s = Failed \<and> tempFilePath s \<noteq> None)
      then onClientCloseWhileDownloading s
      else if delivering (stage s) then req_on_close_mp4 (onClientCloseWhileDownloading s)
      else s)"
| "step env YtProcError s = s"
| "step env YtProcExit s = (if stage s = Mp3Streaming then exitProc (ytProc s) s else s)"
| "step env FfStart s = (if stage s = Mp3Streaming then ff_on_start s else s)"
| "step env (FfProgress tm) s = (if stage s = Mp3Streaming then ff_on_progress env tm s else s)"
| "step env (FfError e) s = (if stage s = Mp3Streaming then ff_on_error e s else s)"
| "step env FfEnd s = (if stage s = Mp3Streaming then ff_on_end s else s)"
| "step env FfPipeEnd s = (if stage s = Mp3Streaming then ff_pipe_end s else s)"
| "step env (DlWrites n) s =
     (if stage s = Mp4Downloading \<and> dlRunning s
      then (case tempFilePath s of None \<Rightarrow> s | Some p \<Rightarrow> s\<lparr>fs := writeFile p n (fs s)\<rparr>)
      else s)"
| "step env DlError s =
     (if dlProc s \<noteq> None then dlProc_on_error (exitProc (dlProc s) s) else s)"
| "step env (DlClose code) s =
     (if dlProc s \<noteq> None then dlProc_on_close code (exitProc (dlProc s) s) else s)"
| "step env ReadError s = (if delivering (stage s) then readStream_on_error s else s)"
| "step env ReadEnd s = (if delivering (stage s) then readStream_on_end s else s)"
| "step env (SseConnect l k) s = s\<lparr>reg := progress_connect l k (reg s)\<rparr>"
| "step env (SseClose l) s = s\<lparr>reg := progress_close l (reg s)\<rparr>"

definition run :: "env \<Rightarrow> event list \<Rightarrow> state \<Rightarrow> state" where
  "run env evs s = foldl (\<lambda>s' ev. step env ev s') s evs"

section \<open>Sample inputs\<close>

text \<open>
  An environment for the examples: no wrapper, a clock value of 42, arithmetic that is
  exact (on the numbers of the examples an exact result is a double, so rounding changes
  nothing), and \<^verbatim>\<open>parseFloat\<close> given on the strings the examples parse (its value on
  other strings plays no part).
\<close>

definition sampleParse :: "string \<Rightarrow> jsnum" where
  "sampleParse s =
     (if s = ''-01'' then Num (- 1)
      else if s = ''00'' then Num 0
      else if s = ''00.00'' then Num 0
      else if s = ''50.00'' then Num 50
      else NaN)"

definition sampleEnv :: env where
  "sampleEnv = \<lparr>parseFloat = sampleParse, roundDouble = (\<lambda>x. x), ytDlpExecWrapper = False, now = 42\<rparr>"

definition sampleMeta :: meta where
  "sampleMeta = \<lparr>title = Some ''Clip 1'', mduration = Some 10\<rparr>"

definition sampleBegin :: "string option \<Rightarrow> state" where
  "sampleBegin qformat = download_begin sampleEnv emptyRegistry Map.empty ''abc'' qformat None"

definition sampleRequest :: "qvalue \<Rightarrow> state" where
  "sampleRequest q = download_handler sampleEnv emptyRegistry Map.empty ''abc'' q None"

section \<open>Notions used in the statements\<close>

text \<open>
  Whether the log records that the file \<open>p\<close> was written, and how often it records
  that \<open>p\<close> was unlinked.
\<close>

fun isWrote :: "path \<Rightarrow> fsop \<Rightarrow> bool" where
  "isWrote p (Wrote q n) = (q = p)"
| "isWrote p (Unlinked q) = False"

definition created :: "path \<Rightarrow> filesystem \<Rightarrow> bool" where
  "created p f = list_ex (isWrote p) (fsLog f)"

definition unlinks :: "path \<Rightarrow> filesystem \<Rightarrow> nat" where
  "unlinks p f = count_list (fsLog f) (Unlinked p)"

text \<open>
  The four ways a request that got as far as naming its temporary file can end: the read
  stream ended, the read failed, the client closed during delivery, or the
  \<^verbatim>\<open>catch\<close> block ran.
\<close>

definition terminal :: "stage \<Rightarrow> bool" where
  "terminal st = (st = Mp4Completed \<or> st = Mp4ReadFailed \<or> st = Mp4Disconnected \<or> st = Failed)"

text \<open>
  The invariant of the temporary file \<open>p\<close>: while it is present nothing has been
  unlinked; once it is absent it has been unlinked once if it was ever written, and never
  otherwise; nothing is unlinked while the download is awaited; in a terminal stage the
  file is absent.
\<close>

definition fileOk :: "path \<Rightarrow> stage \<Rightarrow> filesystem \<Rightarrow> bool" where
  "fileOk p st f =
     ((present f p \<noteq> None \<longrightarrow> unlinks p f = 0 \<and> created p f) \<and>
      (present f p = None \<longrightarrow> unlinks p f = (if created p f then 1 else 0)) \<and>
      (st = Mp4Downloading \<longrightarrow> unlinks p f = 0) \<and>
      (terminal st \<longrightarrow> present f p = None))"

definition inv_fs :: "env \<Rightarrow> state \<Rightarrow> bool" where
  "inv_fs env s =
     ((tempFilePath s = None \<longrightarrow>
         fsLog (fs s) = [] \<and> (\<forall>stem. present (fs s) (TempFile stem (now env)) = None) \<and>
         (stage s = AwaitMeta \<or> stage s = Rejected \<or> stage s = Mp3Streaming \<or> stage s = Failed)) \<and>
      (\<forall>p. tempFilePath s = Some p \<longrightarrow>
         fileOk p (stage s) (fs s) \<and>
         (stage s = Mp4Downloading \<or> delivering (stage s) \<or> stage s = Failed)))"

text \<open>
  The size of the temporary file now, if the handler has named one and it is present; and
  the invariant of the Content-Length header: it is not set before the file is delivered
  (nor ever on the mp3 path); during and after delivery it is the size \<^verbatim>\<open>statSync\<close>
  returned, which is the size of the file for as long as the file is there.
\<close>

definition fileSize :: "state \<Rightarrow> nat option" where
  "fileSize s = (case tempFilePath s of None \<Rightarrow> None | Some p \<Rightarrow> present (fs s) p)"

definition lenOk :: "stage \<Rightarrow> response \<Rightarrow> nat option \<Rightarrow> nat option \<Rightarrow> bool" where
  "lenOk st r stat cur =
     ((st = AwaitMeta \<or> st = Mp3Streaming \<or> st = Mp4Downloading \<longrightarrow> headers r ''Content-Length'' = None) \<and>
      (delivering st \<longrightarrow>
         stat \<noteq> None \<and> headers r ''Content-Length'' = map_option Decimal stat \<and>
         (cur \<noteq> None \<longrightarrow> cur = stat)))"

definition inv_len :: "state \<Rightarrow> bool" where
  "inv_len s = lenOk (stage s) (res s) (statSize s) (fileSize s)"

text \<open>
  The invariant of the process table: a process that has not exited is the one the
  current stage is waiting for (the metadata lookup, the mp3 fetch or the mp4 download).
\<close>

definition inv_procs :: "state \<Rightarrow> bool" where
  "inv_procs s =
     (\<forall>i < length (procs s). \<not> exited (procs s ! i) \<longrightarrow>
        (stage s = AwaitMeta \<and> metaProc s = Some i) \<or>
        (stage s = Mp3Streaming \<and> ytProc s = Some i) \<or>
        (stage s = Mp4Downloading \<and> dlProc s = Some i))"


text \<open>
  The invariant of the mp3 path: while streaming, the headers have been sent, no JSON body
  has been written, the status is still 200 and \<^verbatim>\<open>ytProc\<close> is the fetch process.
\<close>

definition inv_mp3 :: "state \<Rightarrow> bool" where
  "inv_mp3 s =
     ((stage s = AwaitMeta \<longrightarrow> jsonBody (res s) = None \<and> statusCode (res s) = 200) \<and>
      (stage s = Mp3Streaming \<longrightarrow>
         headersSent (res s) \<and> jsonBody (res s) = None \<and> statusCode (res s) = 200 \<and>
         (\<exists>pid. ytProc s = Some pid \<and> pid < length (procs s) \<and>
                command (procs s ! pid) = YtDlpAudio (urlOf (videoId s)))))"

text \<open>The two bodies the handler sends with status 400.\<close>

definition invalidFormat :: body where
  "invalidFormat = ErrorBody ''Invalid format. Use mp3 or mp4.'' None"

definition tooLong :: body where
  "tooLong = ErrorBody ''Video too long. Maximum 1 hour allowed.'' None"

section \<open>Properties of the registry\<close>

lemma written_onProgress:
  "written (onProgress l p r) m = (if m = l then written r l @ [p] else written r m)"
  by (simp add: onProgress_def)

lemma written_foldl_onProgress:
  "written (foldl (\<lambda>r' l. onProgress l p r') r ls) m =
     written r m @ replicate (count_list ls m) p"
proof (induction ls arbitrary: r)
  case Nil
  show ?case by simp
next
  case (Cons a ls)
  show ?case
    by (simp add: Cons.IH written_onProgress replicate_app_Cons_same)
qed

lemma written_emit:
  "written (emit e p r) m = written r m @ replicate (count_list (listenersOf r e) m) p"
  by (simp add: emit_def written_foldl_onProgress)

text \<open>
  C10. Publishing for a key that has no entry in \<open>progressEmitters\<close> changes nothing: no
  entry is created, nothing is written to any connection, no error is raised (the
  function has no failing branch), and a subscriber that connects afterwards finds what
  it would have found had the event never been published; connecting writes nothing to
  the new connection, so the dropped event is not replayed.
\<close>

theorem sendProgress_without_channel:
  assumes "progressEmitters r k = None"
  shows "sendProgress k p r = r \<and>
         progress_connect l k (sendProgress k p r) = progress_connect l k r \<and>
         written (progress_connect l k (sendProgress k p r)) l = written r l"
  using assms by (simp add: sendProgress_def progress_connect_def getEmitter_def)

theorem sendProgress_without_channel_witness:
  "progressEmitters emptyRegistry ''abc_mp3'' = None \<and>
   sendProgress ''abc_mp3'' Starting emptyRegistry = emptyRegistry \<and>
   written (progress_connect 0 ''abc_mp3'' (sendProgress ''abc_mp3'' Starting emptyRegistry)) 0 = []"
proof -
  have h: "progressEmitters emptyRegistry ''abc_mp3'' = None"
    by (simp add: emptyRegistry_def)
  have w: "written emptyRegistry 0 = []"
    by (simp add: emptyRegistry_def)
  have "written (progress_connect 0 ''abc_mp3'' (sendProgress ''abc_mp3'' Starting emptyRegistry)) 0
          = written emptyRegistry 0"
    and "sendProgress ''abc_mp3'' Starting emptyRegistry = emptyRegistry"
    using sendProgress_without_channel [OF h, of Starting 0] by blast+
  with h w show ?thesis by (simp only: simp_thms)
qed

section \<open>The temporary file\<close>

lemma present_unlinkIfExists:
  "present (unlinkIfExists p f) q = (if q = p then None else present f q)"
  by (auto simp: unlinkIfExists_def existsSync_def unlinkSync_def split: option.splits)

lemma fsLog_unlinkIfExists:
  "fsLog (unlinkIfExists p f) = (if present f p = None then fsLog f else fsLog f @ [Unlinked p])"
  by (auto simp: unlinkIfExists_def existsSync_def unlinkSync_def split: option.splits)

lemma unlinks_unlinkIfExists:
  "unlinks p (unlinkIfExists p f) = (if present f p = None then unlinks p f else Suc (unlinks p f))"
  by (simp add: unlinks_def fsLog_unlinkIfExists)

lemma created_unlinkIfExists:
  "created p (unlinkIfExists p f) = created p f"
  by (simp add: created_def fsLog_unlinkIfExists)

lemma fs_writeFile:
  "present (writeFile p n f) q = (if q = p then Some n else present f q)"
  "unlinks p (writeFile p n f) = unlinks p f"
  "created p (writeFile p n f) = True"
  by (simp_all add: writeFile_def unlinks_def created_def)

lemmas fs_simps = present_unlinkIfExists unlinks_unlinkIfExists created_unlinkIfExists fs_writeFile




lemma fileOk_unlink:
  "fileOk p st f \<Longrightarrow> st' \<noteq> Mp4Downloading \<Longrightarrow> fileOk p st' (unlinkIfExists p f)"
  by (simp add: fileOk_def fs_simps)

lemma fileOk_write:
  "fileOk p Mp4Downloading f \<Longrightarrow> fileOk p Mp4Downloading (writeFile p n f)"
  by (simp add: fileOk_def fs_simps terminal_def)

lemma fileOk_stage:
  "fileOk p st f \<Longrightarrow> st' \<noteq> Mp4Downloading \<Longrightarrow> \<not> terminal st' \<or> present f p = None \<Longrightarrow> fileOk p st' f"
  by (auto simp add: fileOk_def)

lemma fileOk_fresh:
  "present f p = None \<Longrightarrow> fsLog f = [] \<Longrightarrow> fileOk p st f"
  by (simp add: fileOk_def unlinks_def created_def)

lemma unlinkIfExists_absent:
  "present f p = None \<Longrightarrow> unlinkIfExists p f = f"
  by (simp add: unlinkIfExists_def existsSync_def)



lemma inv_fs_cong:
  "tempFilePath s' = tempFilePath s \<Longrightarrow> stage s' = stage s \<Longrightarrow> fs s' = fs s \<Longrightarrow>
   inv_fs env s' = inv_fs env s"
  by (simp add: inv_fs_def)

lemma inv_fs_begin:
  "\<forall>stem. dir (TempFile stem (now env)) = None \<Longrightarrow> inv_fs env (download_begin env r dir vid qf qk)"
  by (simp add: inv_fs_def download_begin_def)

lemma inv_fs_exitProc: "inv_fs env (exitProc q s) = inv_fs env s"
  by (cases q) (simp_all add: exitProc_def inv_fs_def)

lemma inv_fs_onClientClose: "inv_fs env (onClientCloseWhileDownloading s) = inv_fs env s"
  by (cases "dlProc s") (simp_all add: onClientCloseWhileDownloading_def inv_fs_def)

lemma inv_fs_catch: "inv_fs env s \<Longrightarrow> inv_fs env (catch_block e s)"
  by (cases "tempFilePath s") (auto simp add: inv_fs_def catch_block_def intro: fileOk_unlink)

lemma inv_fs_cleanup: "inv_fs env s \<Longrightarrow> stage s \<noteq> Mp4Downloading \<Longrightarrow> inv_fs env (cleanupTemp s)"
  by (cases "tempFilePath s") (auto simp add: inv_fs_def cleanupTemp_def intro: fileOk_unlink)

lemma inv_fs_cleanup_settle:
  assumes "inv_fs env s" "delivering (stage s)" "terminal st" "delivering st"
  shows "inv_fs env (settle st (cleanupTemp s))"
proof (cases "tempFilePath s")
  case None
  with assms show ?thesis by (auto simp add: inv_fs_def delivering_def)
next
  case (Some p)
  with assms have ok: "fileOk p (stage s) (fs s)" by (simp add: inv_fs_def)
  from assms have nd: "stage s \<noteq> Mp4Downloading" "st \<noteq> Mp4Downloading" by (auto simp: delivering_def)
  have a: "fileOk p (stage s) (unlinkIfExists p (fs s))" by (rule fileOk_unlink [OF ok nd(1)])
  have b: "fileOk p st (unlinkIfExists p (fs s))" by (rule fileOk_unlink [OF ok nd(2)])
  show ?thesis using Some a b assms(2,4)
    by (simp add: inv_fs_def settle_def cleanupTemp_def)
qed

lemma inv_fs_update:
  "inv_fs env (s\<lparr>res := a\<rparr>) = inv_fs env s"
  "inv_fs env (s\<lparr>reg := b\<rparr>) = inv_fs env s"
  "inv_fs env (s\<lparr>procs := c\<rparr>) = inv_fs env s"
  "inv_fs env (s\<lparr>duration := d\<rparr>) = inv_fs env s"
  "inv_fs env (s\<lparr>clientKey := k\<rparr>) = inv_fs env s"
  by (simp_all add: inv_fs_def)

lemma stage_cleanupTemp: "stage (cleanupTemp s) = stage s"
  by (cases "tempFilePath s") (simp_all add: cleanupTemp_def)

lemma inv_fs_mp3_branch:
  "inv_fs env s \<Longrightarrow> stage s = AwaitMeta \<Longrightarrow> inv_fs env (mp3_branch t s)"
  by (cases "tempFilePath s") (auto simp add: inv_fs_def mp3_branch_def spawn_def delivering_def split: prod.splits)

lemma inv_fs_mp4_branch:
  "inv_fs env s \<Longrightarrow> stage s = AwaitMeta \<Longrightarrow> inv_fs env (mp4_branch env t s)"
  by (cases "tempFilePath s") (auto simp add: inv_fs_def mp4_branch_def spawn_def delivering_def Let_def intro: fileOk_fresh)

lemma inv_fs_on_metadata:
  assumes "inv_fs env s" "stage s = AwaitMeta"
  shows "inv_fs env (on_metadata env m s)"
proof -
  let ?s1 = "s\<lparr>duration := durationOf m, clientKey := clientKeyOf (queryKey s) (videoId s) (format s)\<rparr>"
  have i1: "inv_fs env (s\<lparr>duration := d, clientKey := k\<rparr>)" for d k
    using assms(1) by (simp add: inv_fs_update)
  have st1: "stage (s\<lparr>duration := d, clientKey := k\<rparr>) = AwaitMeta" for d k
    using assms(2) by simp
  have rej: "inv_fs env (t\<lparr>res := b, stage := Rejected\<rparr>)" if "inv_fs env t" "stage t = AwaitMeta" for t b
    using that by (auto simp: inv_fs_def delivering_def)
  show ?thesis
    unfolding on_metadata_def Let_def
    using rej [OF assms] rej [OF i1 st1] inv_fs_mp3_branch [OF i1 st1] inv_fs_mp4_branch [OF i1 st1]
    by simp
qed

lemma inv_fs_after_download:
  assumes "inv_fs env s" "stage s = Mp4Downloading"
  shows "inv_fs env (after_download s)"
proof (cases "tempFilePath s")
  case None
  then show ?thesis using assms by (simp add: after_download_def)
next
  case (Some p)
  show ?thesis
  proof (cases "present (fs s) p")
    case None
    then show ?thesis using Some inv_fs_catch [OF assms(1)] by (simp add: after_download_def)
  next
    case (Some sz)
    from assms \<open>tempFilePath s = Some p\<close> have "fileOk p Mp4Downloading (fs s)"
      by (simp add: inv_fs_def)
    then have "fileOk p Mp4Delivering (fs s)"
      by (rule fileOk_stage) (simp_all add: terminal_def)
    then show ?thesis using Some \<open>tempFilePath s = Some p\<close>
      by (simp add: after_download_def inv_fs_def delivering_def)
  qed
qed

lemma inv_fs_reject: "inv_fs env s \<Longrightarrow> inv_fs env (reject e s)"
  by (simp add: reject_def inv_fs_catch)

lemma inv_fs_resolve: "inv_fs env s \<Longrightarrow> inv_fs env (resolve s)"
  by (simp add: resolve_def inv_fs_after_download)

lemma inv_fs_cleanup_downloading:
  assumes "inv_fs env s"
  shows "inv_fs env (reject e (cleanupTemp s))"
proof (cases "stage s = Mp4Downloading")
  case False
  then show ?thesis using assms by (simp add: reject_def stage_cleanupTemp inv_fs_cleanup)
next
  case True
  show ?thesis
  proof (cases "tempFilePath s")
    case None
    then show ?thesis using assms by (simp add: cleanupTemp_def inv_fs_reject)
  next
    case (Some p)
    with assms True have ok: "fileOk p Mp4Downloading (fs s)" by (simp add: inv_fs_def)
    have "fileOk p Failed (unlinkIfExists p (fs s))"
      by (rule fileOk_unlink [OF ok]) simp
    then have "fileOk p Failed (unlinkIfExists p (unlinkIfExists p (fs s)))"
      by (rule fileOk_unlink) simp
    then show ?thesis using Some True
      by (simp add: reject_def cleanupTemp_def catch_block_def inv_fs_def)
  qed
qed

lemma inv_fs_step: "inv_fs env s \<Longrightarrow> inv_fs env (step env ev s)"
proof (cases ev)
  case (MetaSettled out)
  assume i: "inv_fs env s"
  have e: "inv_fs env (exitProc (metaProc s) s)" using i by (simp add: inv_fs_exitProc)
  have st: "stage (exitProc (metaProc s) s) = stage s"
    by (cases "metaProc s") (simp_all add: exitProc_def)
  show ?thesis using MetaSettled i inv_fs_catch [OF e] inv_fs_on_metadata [OF e] st
    by (simp split: sum.splits)
next
  case (ReqClose a)
  assume i: "inv_fs env s"
  have m3: "inv_fs env (req_on_close_mp3 a s)"
    using i by (simp add: req_on_close_mp3_def inv_fs_update)
  have oc: "inv_fs env (onClientCloseWhileDownloading s)"
    using i by (simp add: inv_fs_onClientClose)
  have st: "stage (onClientCloseWhileDownloading s) = stage s"
    by (cases "dlProc s") (simp_all add: onClientCloseWhileDownloading_def)
  have m4: "delivering (stage s) \<Longrightarrow> inv_fs env (req_on_close_mp4 (onClientCloseWhileDownloading s))"
    unfolding req_on_close_mp4_def
    by (rule inv_fs_cleanup_settle [OF oc]) (simp_all add: st terminal_def delivering_def)
  show ?thesis using ReqClose i m3 oc m4 by simp
next
  case (DlWrites n)
  assume i: "inv_fs env s"
  show ?thesis
  proof (cases "tempFilePath s")
    case None
    then show ?thesis using DlWrites i by simp
  next
    case (Some p)
    have "fileOk p Mp4Downloading (writeFile p n (fs s))" if "stage s = Mp4Downloading"
      using that i Some by (auto simp: inv_fs_def intro: fileOk_write)
    then show ?thesis using DlWrites i Some by (simp add: inv_fs_def)
  qed
next
  case DlError
  assume i: "inv_fs env s"
  have e: "inv_fs env (exitProc (dlProc s) s)" using i by (simp add: inv_fs_exitProc)
  show ?thesis using DlError i inv_fs_reject [OF e] by (simp add: dlProc_on_error_def)
next
  case (DlClose code)
  assume i: "inv_fs env s"
  have e: "inv_fs env (exitProc (dlProc s) s)" using i by (simp add: inv_fs_exitProc)
  show ?thesis using DlClose i inv_fs_reject [OF e] inv_fs_resolve [OF e] inv_fs_cleanup_downloading [OF e]
    by (simp add: dlProc_on_close_def)
next
  case ReadError
  assume i: "inv_fs env s"
  have "delivering (stage s) \<Longrightarrow> inv_fs env (readStream_on_error s)"
    unfolding readStream_on_error_def
    by (rule inv_fs_cleanup_settle [OF i]) (simp_all add: terminal_def delivering_def)
  then show ?thesis using ReadError i by simp
next
  case ReadEnd
  assume i: "inv_fs env s"
  have eq: "(cleanupTemp s)\<lparr>res := res_end (res s)\<rparr> = cleanupTemp (s\<lparr>res := res_end (res s)\<rparr>)"
    by (cases "tempFilePath s") (simp_all add: cleanupTemp_def)
  have i': "inv_fs env (s\<lparr>res := res_end (res s)\<rparr>)" using i by (simp add: inv_fs_update)
  have "delivering (stage s) \<Longrightarrow> inv_fs env (readStream_on_end s)"
    unfolding readStream_on_end_def eq
    by (rule inv_fs_cleanup_settle [OF i']) (simp_all add: terminal_def delivering_def)
  then show ?thesis using ReadEnd i by simp
next
  case YtProcError
  assume "inv_fs env s" then show ?thesis using YtProcError by simp
next
  case YtProcExit
  assume "inv_fs env s" then show ?thesis using YtProcExit by (simp add: inv_fs_exitProc)
next
  case FfStart
  assume "inv_fs env s" then show ?thesis using FfStart by (simp add: ff_on_start_def inv_fs_update)
next
  case (FfProgress tm)
  assume "inv_fs env s" then show ?thesis using FfProgress by (simp add: ff_on_progress_def inv_fs_update)
next
  case (FfError e)
  assume "inv_fs env s" then show ?thesis using FfError by (simp add: ff_on_error_def inv_fs_update)
next
  case FfEnd
  assume "inv_fs env s" then show ?thesis using FfEnd by (simp add: ff_on_end_def inv_fs_update)
next
  case FfPipeEnd
  assume "inv_fs env s" then show ?thesis using FfPipeEnd by (simp add: ff_pipe_end_def inv_fs_update)
next
  case (SseConnect l k)
  assume "inv_fs env s" then show ?thesis using SseConnect by (simp add: inv_fs_update)
next
  case (SseClose l)
  assume "inv_fs env s" then show ?thesis using SseClose by (simp add: inv_fs_update)
qed

lemma inv_fs_run: "inv_fs env s \<Longrightarrow> inv_fs env (run env evs s)"
  unfolding run_def by (induction evs arbitrary: s) (simp_all add: inv_fs_step)

section \<open>The Content-Length header\<close>

lemma headers_simps:
  "headers (res_end r) = headers r"
  "headers (status_json c b r) = headers r"
  "headers (flushHeaders r) = headers r"
  "headers (setHeader n v r) = (headers r)(n \<mapsto> v)"
  by (simp_all add: res_end_def status_json_def flushHeaders_def setHeader_def)

lemma fileSize_update:
  "fileSize (s\<lparr>res := a\<rparr>) = fileSize s"
  "fileSize (s\<lparr>reg := b\<rparr>) = fileSize s"
  "fileSize (s\<lparr>procs := c\<rparr>) = fileSize s"
  "fileSize (s\<lparr>duration := d\<rparr>) = fileSize s"
  "fileSize (s\<lparr>clientKey := k\<rparr>) = fileSize s"
  "fileSize (s\<lparr>stage := st\<rparr>) = fileSize s"
  "fileSize (s\<lparr>abortedDuringDownload := x\<rparr>) = fileSize s"
  "fileSize (s\<lparr>statSize := y\<rparr>) = fileSize s"
  "fileSize (s\<lparr>filename := z\<rparr>) = fileSize s"
  "fileSize (s\<lparr>ytProc := w\<rparr>) = fileSize s"
  by (simp_all add: fileSize_def split: option.split)

lemma fileSize_cleanupTemp: "fileSize (cleanupTemp s) = None"
  by (cases "tempFilePath s") (simp_all add: fileSize_def cleanupTemp_def present_unlinkIfExists)

lemma fields_cleanupTemp:
  "stage (cleanupTemp s) = stage s" "res (cleanupTemp s) = res s" "statSize (cleanupTemp s) = statSize s"
  "tempFilePath (cleanupTemp s) = tempFilePath s" "procs (cleanupTemp s) = procs s"
  by (cases "tempFilePath s"; simp add: cleanupTemp_def)+

lemma lenOk_gone: "lenOk st r stat cur \<Longrightarrow> lenOk st r stat None"
  by (simp add: lenOk_def)

lemma lenOk_other:
  "st \<noteq> AwaitMeta \<Longrightarrow> st \<noteq> Mp3Streaming \<Longrightarrow> st \<noteq> Mp4Downloading \<Longrightarrow> \<not> delivering st \<Longrightarrow> lenOk st r stat cur"
  by (simp add: lenOk_def)

lemma inv_len_begin: "inv_len (download_begin env r dir vid qf qk)"
  by (simp add: inv_len_def lenOk_def download_begin_def freshResponse_def delivering_def)

lemma inv_len_exitProc: "inv_len (exitProc q s) = inv_len s"
  by (cases q) (simp_all add: exitProc_def inv_len_def fileSize_update)

lemma inv_len_catch: "inv_len (catch_block e s)"
  by (simp add: inv_len_def catch_block_def lenOk_other delivering_def)

lemma inv_len_onClientClose: "inv_len (onClientCloseWhileDownloading s) = inv_len s"
  by (cases "dlProc s") (simp_all add: onClientCloseWhileDownloading_def inv_len_def fileSize_update)

lemma inv_len_cleanup: "inv_len s \<Longrightarrow> inv_len (cleanupTemp s)"
  unfolding inv_len_def fields_cleanupTemp fileSize_cleanupTemp by (rule lenOk_gone)

lemma inv_len_settle: "inv_len s \<Longrightarrow> delivering st \<Longrightarrow> inv_len (settle st s)"
  by (auto simp add: inv_len_def settle_def fileSize_update lenOk_def delivering_def)

lemma inv_len_on_metadata: "inv_len s \<Longrightarrow> stage s = AwaitMeta \<Longrightarrow> inv_len (on_metadata env m s)"
  by (simp add: on_metadata_def Let_def mp3_branch_def mp4_branch_def spawn_def inv_len_def lenOk_def
      delivering_def headers_simps split: prod.splits)

lemma inv_len_after_download: "inv_len s \<Longrightarrow> stage s = Mp4Downloading \<Longrightarrow> inv_len (after_download s)"
proof (cases "tempFilePath s")
  case None
  assume "inv_len s" then show ?thesis using None by (simp add: after_download_def)
next
  case (Some p)
  show ?thesis
  proof (cases "present (fs s) p")
    case None
    then show ?thesis using Some by (simp add: after_download_def inv_len_catch)
  next
    case (Some sz)
    then show ?thesis using \<open>tempFilePath s = Some p\<close>
      by (simp add: after_download_def inv_len_def lenOk_def delivering_def headers_simps fileSize_def)
  qed
qed

lemma inv_len_reject: "inv_len s \<Longrightarrow> inv_len (reject e s)"
  by (simp add: reject_def inv_len_catch)

lemma inv_len_resolve: "inv_len s \<Longrightarrow> inv_len (resolve s)"
  by (simp add: resolve_def inv_len_after_download)

lemma inv_len_res_end: "inv_len s \<Longrightarrow> inv_len (s\<lparr>res := res_end (res s)\<rparr>)"
  by (simp add: inv_len_def lenOk_def headers_simps fileSize_update)

lemma inv_len_reg: "inv_len (s\<lparr>reg := g\<rparr>) = inv_len s"
  by (simp add: inv_len_def fileSize_update)

lemma inv_len_write:
  "inv_len s \<Longrightarrow> stage s = Mp4Downloading \<Longrightarrow> inv_len (s\<lparr>fs := f\<rparr>)"
  by (simp add: inv_len_def lenOk_def delivering_def)

lemma inv_len_step: "inv_len s \<Longrightarrow> inv_len (step env ev s)"
proof (cases ev)
  case (MetaSettled out)
  assume i: "inv_len s"
  have e: "inv_len (exitProc (metaProc s) s)" using i by (simp add: inv_len_exitProc)
  have st: "stage (exitProc (metaProc s) s) = stage s"
    by (cases "metaProc s") (simp_all add: exitProc_def)
  show ?thesis using MetaSettled i inv_len_catch inv_len_on_metadata [OF e] st
    by (simp split: sum.splits)
next
  case (ReqClose a)
  assume i: "inv_len s"
  have m3: "inv_len (req_on_close_mp3 a s)"
    using i by (simp add: req_on_close_mp3_def inv_len_def fileSize_update)
  have oc: "inv_len (onClientCloseWhileDownloading s)"
    using i by (simp add: inv_len_onClientClose)
  have m4: "inv_len (req_on_close_mp4 (onClientCloseWhileDownloading s))"
    unfolding req_on_close_mp4_def
    by (rule inv_len_settle [OF inv_len_cleanup [OF oc]]) (simp add: delivering_def)
  show ?thesis using ReqClose i m3 oc m4 by simp
next
  case (DlWrites n)
  assume i: "inv_len s"
  then show ?thesis using DlWrites by (simp add: inv_len_write split: option.splits)
next
  case DlError
  assume i: "inv_len s"
  have e: "inv_len (exitProc (dlProc s) s)" using i by (simp add: inv_len_exitProc)
  show ?thesis using DlError i inv_len_reject [OF e] by (simp add: dlProc_on_error_def)
next
  case (DlClose code)
  assume i: "inv_len s"
  have e: "inv_len (exitProc (dlProc s) s)" using i by (simp add: inv_len_exitProc)
  show ?thesis using DlClose i inv_len_reject [OF e] inv_len_resolve [OF e]
      inv_len_reject [OF inv_len_cleanup [OF e]]
    by (simp add: dlProc_on_close_def)
next
  case ReadError
  assume i: "inv_len s"
  have "inv_len (readStream_on_error s)"
    unfolding readStream_on_error_def
    by (rule inv_len_settle [OF inv_len_cleanup [OF i]]) (simp add: delivering_def)
  then show ?thesis using ReadError i by simp
next
  case ReadEnd
  assume i: "inv_len s"
  have eq: "(cleanupTemp s)\<lparr>res := res_end (res s)\<rparr> = cleanupTemp (s\<lparr>res := res_end (res s)\<rparr>)"
    by (cases "tempFilePath s") (simp_all add: cleanupTemp_def)
  have "inv_len (readStream_on_end s)"
    unfolding readStream_on_end_def eq
    by (rule inv_len_settle [OF inv_len_cleanup [OF inv_len_res_end [OF i]]]) (simp add: delivering_def)
  then show ?thesis using ReadEnd i by simp
next
  case YtProcError
  assume "inv_len s" then show ?thesis using YtProcError by simp
next
  case YtProcExit
  assume "inv_len s" then show ?thesis using YtProcExit by (simp add: inv_len_exitProc)
next
  case FfStart
  assume "inv_len s" then show ?thesis using FfStart by (simp add: ff_on_start_def inv_len_reg)
next
  case (FfProgress tm)
  assume "inv_len s" then show ?thesis using FfProgress by (simp add: ff_on_progress_def inv_len_reg)
next
  case (FfError e)
  assume "inv_len s" then show ?thesis using FfError
    by (simp add: ff_on_error_def inv_len_def lenOk_def headers_simps fileSize_update delivering_def)
next
  case FfEnd
  assume "inv_len s" then show ?thesis using FfEnd by (simp add: ff_on_end_def inv_len_reg)
next
  case FfPipeEnd
  assume "inv_len s" then show ?thesis using FfPipeEnd
    by (simp add: ff_pipe_end_def inv_len_def lenOk_def headers_simps fileSize_update delivering_def)
next
  case (SseConnect l k)
  assume "inv_len s" then show ?thesis using SseConnect by (simp add: inv_len_reg)
next
  case (SseClose l)
  assume "inv_len s" then show ?thesis using SseClose by (simp add: inv_len_reg)
qed

lemma inv_len_run: "inv_len s \<Longrightarrow> inv_len (run env evs s)"
  unfolding run_def by (induction evs arbitrary: s) (simp_all add: inv_len_step)

text \<open>
  C8. After any sequence of events: on the mp3 path no Content-Length header is set; on
  the mp4 path, once the file is being delivered (and after), the header is set to the
  size \<^verbatim>\<open>statSync\<close> returned, and the temporary file, while it exists, has exactly
  that size. The header is written by the continuation after the download, from the size
  the file has on disk at that moment.
\<close>

theorem content_length_iff_materialized:
  assumes "s = run env evs (download_begin env r dir vid qformat qkey)"
  shows "(stage s = Mp3Streaming \<longrightarrow> headers (res s) ''Content-Length'' = None) \<and>
         (delivering (stage s) \<longrightarrow>
            (\<exists>n. statSize s = Some n \<and> headers (res s) ''Content-Length'' = Some (Decimal n) \<and>
                 (\<forall>p m. tempFilePath s = Some p \<and> present (fs s) p = Some m \<longrightarrow> m = n))) \<and>
         (\<forall>t p n. tempFilePath t = Some p \<and> present (fs t) p = Some n \<longrightarrow>
            stage (after_download t) = Mp4Delivering \<and>
            headers (res (after_download t)) ''Content-Length'' = Some (Decimal n))"
proof -
  have "inv_len s"
    unfolding assms by (rule inv_len_run) (rule inv_len_begin)
  then have ok: "lenOk (stage s) (res s) (statSize s) (fileSize s)"
    by (simp add: inv_len_def)
  have mp3: "headers (res s) ''Content-Length'' = None" if "stage s = Mp3Streaming"
    using ok that by (simp add: lenOk_def)
  have mp4: "\<exists>n. statSize s = Some n \<and> headers (res s) ''Content-Length'' = Some (Decimal n) \<and>
                 (\<forall>p m. tempFilePath s = Some p \<and> present (fs s) p = Some m \<longrightarrow> m = n)"
    if "delivering (stage s)"
  proof -
    from ok that obtain n where n: "statSize s = Some n"
      and h: "headers (res s) ''Content-Length'' = map_option Decimal (statSize s)"
      and c: "fileSize s \<noteq> None \<longrightarrow> fileSize s = statSize s"
      by (auto simp: lenOk_def)
    have "m = n" if "tempFilePath s = Some p" "present (fs s) p = Some m" for p m
      using c n that by (simp add: fileSize_def)
    with n h show ?thesis by auto
  qed
  have wr: "stage (after_download t) = Mp4Delivering \<and>
            headers (res (after_download t)) ''Content-Length'' = Some (Decimal n)"
    if "tempFilePath t = Some p" "present (fs t) p = Some n" for t p n
    using that by (simp add: after_download_def headers_simps)
  show ?thesis
    using mp3 mp4 wr by blast
qed

theorem content_length_iff_materialized_witness:
  "stage (run sampleEnv [MetaSettled (ProcClose 0 (Some sampleMeta)), FfStart, FfEnd]
            (sampleBegin (Some ''mp3''))) = Mp3Streaming \<and>
   headers (res (run sampleEnv [MetaSettled (ProcClose 0 (Some sampleMeta)), FfStart, FfEnd]
                   (sampleBegin (Some ''mp3'')))) ''Content-Length'' = None \<and>
   stage (run sampleEnv [MetaSettled (ProcClose 0 (Some sampleMeta)), DlWrites 1000, DlClose 0]
            (sampleBegin (Some ''mp4''))) = Mp4Delivering \<and>
   present (fs (run sampleEnv [MetaSettled (ProcClose 0 (Some sampleMeta)), DlWrites 1000, DlClose 0]
                  (sampleBegin (Some ''mp4'')))) (TempFile ''Clip_1'' 42) = Some 1000 \<and>
   headers (res (run sampleEnv [MetaSettled (ProcClose 0 (Some sampleMeta)), DlWrites 1000, DlClose 0]
                   (sampleBegin (Some ''mp4'')))) ''Content-Length'' = Some (Decimal 1000)"
proof -
  let ?a = "run sampleEnv [MetaSettled (ProcClose 0 (Some sampleMeta)), FfStart, FfEnd]
              (sampleBegin (Some ''mp3''))"
  let ?v = "run sampleEnv [MetaSettled (ProcClose 0 (Some sampleMeta)), DlWrites 1000, DlClose 0]
              (sampleBegin (Some ''mp4''))"
  have sa: "stage ?a = Mp3Streaming"
    unfolding sampleBegin_def sampleEnv_def sampleMeta_def by code_simp
  have sv: "stage ?v = Mp4Delivering"
    unfolding sampleBegin_def sampleEnv_def sampleMeta_def by code_simp
  have tv: "tempFilePath ?v = Some (TempFile ''Clip_1'' 42)"
    unfolding sampleBegin_def sampleEnv_def sampleMeta_def by code_simp
  have pv: "present (fs ?v) (TempFile ''Clip_1'' 42) = Some 1000"
    unfolding sampleBegin_def sampleEnv_def sampleMeta_def by code_simp
  have dv: "delivering (stage ?v)"
    by (simp add: sv delivering_def)
  have ra: "?a = run sampleEnv [MetaSettled (ProcClose 0 (Some sampleMeta)), FfStart, FfEnd]
                   (download_begin sampleEnv emptyRegistry Map.empty ''abc'' (Some ''mp3'') None)"
    by (simp add: sampleBegin_def)
  have rv: "?v = run sampleEnv [MetaSettled (ProcClose 0 (Some sampleMeta)), DlWrites 1000, DlClose 0]
                   (download_begin sampleEnv emptyRegistry Map.empty ''abc'' (Some ''mp4'') None)"
    by (simp add: sampleBegin_def)
  from content_length_iff_materialized [OF ra] sa
  have ha: "headers (res ?a) ''Content-Length'' = None"
    by blast
  from content_length_iff_materialized [OF rv] dv
  obtain n where n: "headers (res ?v) ''Content-Length'' = Some (Decimal n)"
    and m: "\<forall>p m. tempFilePath ?v = Some p \<and> present (fs ?v) p = Some m \<longrightarrow> m = n"
    by blast
  from m tv pv have "n = 1000"
    by blast
  with n sa sv pv ha show ?thesis
    by (simp only: simp_thms)
qed

section \<open>Child processes and the mp3 path\<close>

lemma kill_simps:
  "length (kill pid sg ps) = length ps"
  "i < length ps \<Longrightarrow> exited (kill pid sg ps ! i) = exited (ps ! i)"
  "i < length ps \<Longrightarrow> command (kill pid sg ps ! i) = command (ps ! i)"
  by (simp_all add: kill_def nth_list_update)

lemma signals_kill:
  "i < length ps \<Longrightarrow>
   signals (kill pid sg ps ! i) =
     (if i = pid \<and> \<not> exited (ps ! i) then signals (ps ! i) @ [sg] else signals (ps ! i))"
  by (simp add: kill_def nth_list_update)

lemma markExited_simps:
  "length (markExited pid ps) = length ps"
  "i < length ps \<Longrightarrow> exited (markExited pid ps ! i) = (i = pid \<or> exited (ps ! i))"
  "i < length ps \<Longrightarrow> signals (markExited pid ps ! i) = signals (ps ! i)"
  "i < length ps \<Longrightarrow> command (markExited pid ps ! i) = command (ps ! i)"
  by (auto simp add: markExited_def nth_list_update)


lemma inv_procs_kill: "inv_procs s \<Longrightarrow> inv_procs (s\<lparr>procs := kill pid sg (procs s)\<rparr>)"
  by (simp add: inv_procs_def kill_simps)






lemma fields_exitProc:
  "stage (exitProc q s) = stage s" "ytProc (exitProc q s) = ytProc s" "dlProc (exitProc q s) = dlProc s"
  "tempFilePath (exitProc q s) = tempFilePath s" "res (exitProc q s) = res s" "fs (exitProc q s) = fs s"
  "metaProc (exitProc q s) = metaProc s" "format (exitProc q s) = format s" "reg (exitProc q s) = reg s"
  "length (procs (exitProc q s)) = length (procs s)"
  by (cases q; simp add: exitProc_def markExited_simps)+







lemma stage_reject: "stage s \<noteq> Mp4Downloading \<Longrightarrow> reject e s = s"
  by (simp add: reject_def)

lemma stage_resolve: "stage s \<noteq> Mp4Downloading \<Longrightarrow> resolve s = s"
  by (simp add: resolve_def)





lemma fields_cleanupTemp_more:
  "ytProc (cleanupTemp s) = ytProc s" "videoId (cleanupTemp s) = videoId s"
  "dlProc (cleanupTemp s) = dlProc s" "reg (cleanupTemp s) = reg s" "format (cleanupTemp s) = format s"
  by (cases "tempFilePath s"; simp add: cleanupTemp_def)+

lemma inv_mp3_begin: "inv_mp3 (download_begin env r dir vid qf qk)"
  by (simp add: inv_mp3_def download_begin_def freshResponse_def)

lemma inv_mp3_other: "stage s \<noteq> AwaitMeta \<Longrightarrow> stage s \<noteq> Mp3Streaming \<Longrightarrow> inv_mp3 s"
  by (simp add: inv_mp3_def)

lemma inv_mp3_same:
  "inv_mp3 s \<Longrightarrow> stage t = stage s \<Longrightarrow> res t = res s \<Longrightarrow> ytProc t = ytProc s \<Longrightarrow>
   videoId t = videoId s \<Longrightarrow> length (procs t) = length (procs s) \<Longrightarrow>
   (\<forall>i < length (procs s). command (procs t ! i) = command (procs s ! i)) \<Longrightarrow> inv_mp3 t"
  by (auto simp add: inv_mp3_def)

lemma inv_mp3_exitProc: "inv_mp3 s \<Longrightarrow> inv_mp3 (exitProc q s)"
  by (cases q) (auto simp add: inv_mp3_def exitProc_def markExited_simps)

lemma inv_mp3_on_metadata: "inv_mp3 s \<Longrightarrow> stage s = AwaitMeta \<Longrightarrow> inv_mp3 (on_metadata env m s)"
  by (simp add: on_metadata_def Let_def mp3_branch_def mp4_branch_def spawn_def inv_mp3_def
      flushHeaders_def setHeader_def split: prod.splits)

lemma stage_step_not_mp3:
  "stage s \<noteq> Mp3Streaming \<Longrightarrow> stage s \<noteq> AwaitMeta \<Longrightarrow>
   stage (step env ev s) \<noteq> Mp3Streaming \<and> stage (step env ev s) \<noteq> AwaitMeta"
proof (cases ev)
  case (ReqClose a)
  assume "stage s \<noteq> Mp3Streaming" "stage s \<noteq> AwaitMeta"
  then show ?thesis using ReqClose
    by (cases "dlProc s")
      (auto simp add: onClientCloseWhileDownloading_def req_on_close_mp4_def settle_def fields_cleanupTemp)
next
  case DlError
  assume "stage s \<noteq> Mp3Streaming" "stage s \<noteq> AwaitMeta"
  then show ?thesis using DlError
    by (auto simp add: dlProc_on_error_def reject_def catch_block_def fields_exitProc)
next
  case (DlClose code)
  assume "stage s \<noteq> Mp3Streaming" "stage s \<noteq> AwaitMeta"
  then show ?thesis using DlClose
    by (auto simp add: dlProc_on_close_def reject_def resolve_def catch_block_def after_download_def
        fields_exitProc fields_cleanupTemp split: option.splits)
next
  case (DlWrites n)
  assume "stage s \<noteq> Mp3Streaming" "stage s \<noteq> AwaitMeta"
  then show ?thesis using DlWrites by (auto split: option.splits)
next
  case ReadError
  assume "stage s \<noteq> Mp3Streaming" "stage s \<noteq> AwaitMeta"
  then show ?thesis using ReadError
    by (auto simp add: readStream_on_error_def settle_def fields_cleanupTemp)
next
  case ReadEnd
  assume "stage s \<noteq> Mp3Streaming" "stage s \<noteq> AwaitMeta"
  then show ?thesis using ReadEnd
    by (auto simp add: readStream_on_end_def settle_def fields_cleanupTemp)
qed simp_all

lemma inv_mp3_step: "inv_mp3 s \<Longrightarrow> inv_mp3 (step env ev s)"
proof (cases "stage s = Mp3Streaming \<or> stage s = AwaitMeta")
  case False
  then show ?thesis using stage_step_not_mp3 [of s env ev] by (simp add: inv_mp3_other)
next
  case True
  assume i: "inv_mp3 s"
  show ?thesis
  proof (cases ev)
    case (MetaSettled out)
    have e: "inv_mp3 (exitProc (metaProc s) s)" by (rule inv_mp3_exitProc [OF i])
    show ?thesis using MetaSettled i inv_mp3_on_metadata [OF e]
      by (simp add: fields_exitProc inv_mp3_other catch_block_def split: sum.splits)
  next
    case (ReqClose a)
    have "inv_mp3 (req_on_close_mp3 a s)"
      using i by (cases "ytProc s") (auto simp add: req_on_close_mp3_def inv_mp3_def kill_simps)
    then show ?thesis using ReqClose i True by (auto simp add: delivering_def)
  next
    case YtProcError
    then show ?thesis using i by simp
  next
    case YtProcExit
    then show ?thesis using i by (simp add: inv_mp3_exitProc)
  next
    case FfStart
    then show ?thesis using i by (simp add: ff_on_start_def inv_mp3_def)
  next
    case (FfProgress tm)
    then show ?thesis using i by (simp add: ff_on_progress_def inv_mp3_def)
  next
    case (FfError e)
    then show ?thesis using i
      by (cases "ytProc s") (auto simp add: ff_on_error_def inv_mp3_def kill_simps res_end_def)
  next
    case FfEnd
    then show ?thesis using i by (simp add: ff_on_end_def inv_mp3_def)
  next
    case FfPipeEnd
    then show ?thesis using i by (simp add: ff_pipe_end_def inv_mp3_def res_end_def)
  next
    case (DlWrites n)
    then show ?thesis using i True by auto
  next
    case DlError
    have "inv_mp3 (exitProc (dlProc s) s)" by (rule inv_mp3_exitProc [OF i])
    then show ?thesis using DlError i True
      by (auto simp add: dlProc_on_error_def reject_def fields_exitProc)
  next
    case (DlClose code)
    let ?t = "exitProc (dlProc s) s"
    have e: "inv_mp3 ?t" by (rule inv_mp3_exitProc [OF i])
    have c: "inv_mp3 (cleanupTemp ?t)"
      by (rule inv_mp3_same [OF e]) (simp_all add: fields_cleanupTemp fields_cleanupTemp_more)
    have "stage ?t \<noteq> Mp4Downloading" using True by (auto simp add: fields_exitProc)
    then show ?thesis using DlClose i e c
      by (simp add: dlProc_on_close_def stage_reject stage_resolve fields_cleanupTemp)
  next
    case ReadError
    then show ?thesis using i True by (auto simp add: delivering_def)
  next
    case ReadEnd
    then show ?thesis using i True by (auto simp add: delivering_def)
  next
    case (SseConnect l k)
    then show ?thesis using i by (simp add: inv_mp3_def)
  next
    case (SseClose l)
    then show ?thesis using i by (simp add: inv_mp3_def)
  qed
qed

lemma inv_mp3_run: "inv_mp3 s \<Longrightarrow> inv_mp3 (run env evs s)"
  unfolding run_def by (induction evs arbitrary: s) (simp_all add: inv_mp3_step)

section \<open>Client disconnects\<close>







section \<open>Failure of the transcoder\<close>

lemma written_sendProgress:
  "written (sendProgress k p r) l =
     (case progressEmitters r k of
        None \<Rightarrow> written r l
      | Some e \<Rightarrow> written r l @ replicate (count_list (listenersOf r e) l) p)"
  by (simp add: sendProgress_def written_emit split: option.splits)

lemma consts_catch_block:
  "format (catch_block e s) = format s" "videoId (catch_block e s) = videoId s"
  "queryKey (catch_block e s) = queryKey s"
  by (simp_all add: catch_block_def)

lemma consts_cleanupTemp:
  "format (cleanupTemp s) = format s" "videoId (cleanupTemp s) = videoId s"
  "queryKey (cleanupTemp s) = queryKey s"
  by (cases "tempFilePath s"; simp add: cleanupTemp_def)+

lemma consts_exitProc:
  "format (exitProc q s) = format s" "videoId (exitProc q s) = videoId s"
  "queryKey (exitProc q s) = queryKey s"
  by (cases q; simp add: exitProc_def)+

lemma consts_on_metadata:
  "format (on_metadata env m s) = format s" "videoId (on_metadata env m s) = videoId s"
  "queryKey (on_metadata env m s) = queryKey s"
  by (simp_all add: on_metadata_def Let_def mp3_branch_def mp4_branch_def spawn_def split: prod.splits)

lemma consts_onClientClose:
  "format (onClientCloseWhileDownloading s) = format s"
  "videoId (onClientCloseWhileDownloading s) = videoId s"
  "queryKey (onClientCloseWhileDownloading s) = queryKey s"
  by (cases "dlProc s"; simp add: onClientCloseWhileDownloading_def)+

lemma consts_settle:
  "format (settle st s) = format s" "videoId (settle st s) = videoId s"
  "queryKey (settle st s) = queryKey s"
  by (simp_all add: settle_def)

lemma consts_after_download:
  "format (after_download s) = format s" "videoId (after_download s) = videoId s"
  "queryKey (after_download s) = queryKey s"
  by (simp_all add: after_download_def consts_catch_block split: option.splits)

lemma consts_reject:
  "format (reject e s) = format s" "videoId (reject e s) = videoId s"
  "queryKey (reject e s) = queryKey s"
  by (simp_all add: reject_def consts_catch_block)

lemma consts_resolve:
  "format (resolve s) = format s" "videoId (resolve s) = videoId s"
  "queryKey (resolve s) = queryKey s"
  by (simp_all add: resolve_def consts_after_download)

lemmas consts_simps = consts_catch_block consts_cleanupTemp consts_exitProc consts_on_metadata
  consts_onClientClose consts_settle consts_after_download consts_reject consts_resolve

lemma consts_step:
  "format (step env ev s) = format s \<and> videoId (step env ev s) = videoId s \<and>
   queryKey (step env ev s) = queryKey s"
  by (cases ev)
    (simp_all add: consts_simps req_on_close_mp3_def req_on_close_mp4_def ff_on_start_def
      ff_on_progress_def ff_on_error_def ff_on_end_def ff_pipe_end_def dlProc_on_error_def dlProc_on_close_def
      readStream_on_error_def readStream_on_end_def split: sum.splits option.splits)

lemma consts_run:
  "format (run env evs s) = format s \<and> videoId (run env evs s) = videoId s \<and>
   queryKey (run env evs s) = queryKey s"
  unfolding run_def by (induction evs arbitrary: s) (simp_all add: consts_step)

lemma consts_begin:
  "format (download_begin env r dir vid qf qk) = formatOf qf"
  "videoId (download_begin env r dir vid qf qk) = vid"
  "queryKey (download_begin env r dir vid qf qk) = qk"
  by (simp_all add: download_begin_def)

text \<open>
  C6. After any sequence of events that leaves the handler streaming mp3, an 'error' of
  the ffmpeg command finds the headers already sent (the branch flushed them before it
  started anything), so the status stays 200, no JSON body is written and the response is
  ended; \<^verbatim>\<open>ytProc\<close>, the fetch process, is sent SIGTERM unless it has exited; and every
  connection listening on the emitter registered under the client key is written the
  error event, which is then the last thing written to it. In general the callback writes
  the 500 body exactly when the headers have not been sent.
\<close>

theorem ffmpeg_failure_after_headers:
  assumes "s = run env evs (download_begin env r dir vid qformat qkey)"
    and "stage s = Mp3Streaming"
  shows "headersSent (res s) \<and>
         statusCode (res (step env (FfError e) s)) = 200 \<and>
         jsonBody (res (step env (FfError e) s)) = None \<and>
         finished (res (step env (FfError e) s)) \<and>
         (\<exists>pid. ytProc s = Some pid \<and> pid < length (procs s) \<and>
            command (procs s ! pid) = YtDlpAudio (urlOf vid) \<and>
            signals (procs (step env (FfError e) s) ! pid) =
              (if exited (procs s ! pid) then signals (procs s ! pid)
               else signals (procs s ! pid) @ [SIGTERM])) \<and>
         (\<forall>em l. progressEmitters (reg s) (clientKey s) = Some em \<and> l \<in> set (listenersOf (reg s) em) \<longrightarrow>
            written (reg (step env (FfError e) s)) l =
              written (reg s) l @ replicate (count_list (listenersOf (reg s) em) l) (Failure e) \<and>
            last (written (reg (step env (FfError e) s)) l) = Failure e) \<and>
         (\<forall>t. jsonBody (res (ff_on_error e t)) =
            (if headersSent (res t) then jsonBody (res t)
             else Some (ErrorBody ''Conversion failed'' (Some e))))"
proof -
  have "inv_mp3 s"
    unfolding assms(1) by (rule inv_mp3_run) (rule inv_mp3_begin)
  with assms(2) obtain pid where hs: "headersSent (res s)" and jb: "jsonBody (res s) = None"
    and sc: "statusCode (res s) = 200" and yt: "ytProc s = Some pid" and lt: "pid < length (procs s)"
    and cmd: "command (procs s ! pid) = YtDlpAudio (urlOf (videoId s))"
    by (auto simp add: inv_mp3_def)
  have vid: "videoId s = vid"
    unfolding assms(1) by (simp add: consts_run consts_begin)
  let ?s' = "step env (FfError e) s"
  have r1: "statusCode (res ?s') = 200" "jsonBody (res ?s') = None" "finished (res ?s')"
    using hs jb sc assms(2) by (simp_all add: ff_on_error_def res_end_def)
  have p1: "signals (procs ?s' ! pid) =
              (if exited (procs s ! pid) then signals (procs s ! pid) else signals (procs s ! pid) @ [SIGTERM])"
    using yt lt assms(2) by (simp add: ff_on_error_def signals_kill)
  have w1: "written (reg ?s') l = written (reg s) l @ replicate (count_list (listenersOf (reg s) em) l) (Failure e) \<and>
            last (written (reg ?s') l) = Failure e"
    if "progressEmitters (reg s) (clientKey s) = Some em" "l \<in> set (listenersOf (reg s) em)" for em l
  proof -
    have a: "written (reg ?s') l = written (reg s) l @ replicate (count_list (listenersOf (reg s) em) l) (Failure e)"
      using that(1) assms(2) by (simp add: ff_on_error_def written_sendProgress)
    have "count_list (listenersOf (reg s) em) l \<noteq> 0"
      using that(2) by (simp add: count_list_0_iff)
    then have "replicate (count_list (listenersOf (reg s) em) l) (Failure e) \<noteq> []" by simp
    then show ?thesis using a by (simp add: last_append)
  qed
  have b1: "jsonBody (res (ff_on_error e t)) =
            (if headersSent (res t) then jsonBody (res t) else Some (ErrorBody ''Conversion failed'' (Some e)))" for t
    by (simp add: ff_on_error_def res_end_def status_json_def)
  show ?thesis
    using hs r1 yt lt cmd vid p1 w1 b1 by blast
qed


theorem ffmpeg_failure_after_headers_witness:
  "stage (run sampleEnv [SseConnect 7 ''abc_mp3'', MetaSettled (ProcClose 0 (Some sampleMeta)), FfStart]
            (sampleBegin None)) = Mp3Streaming \<and>
   headersSent (res (run sampleEnv [SseConnect 7 ''abc_mp3'', MetaSettled (ProcClose 0 (Some sampleMeta)), FfStart]
            (sampleBegin None))) \<and>
   statusCode (res (step sampleEnv (FfError (FfmpegError ''boom''))
     (run sampleEnv [SseConnect 7 ''abc_mp3'', MetaSettled (ProcClose 0 (Some sampleMeta)), FfStart]
            (sampleBegin None)))) = 200 \<and>
   jsonBody (res (step sampleEnv (FfError (FfmpegError ''boom''))
     (run sampleEnv [SseConnect 7 ''abc_mp3'', MetaSettled (ProcClose 0 (Some sampleMeta)), FfStart]
            (sampleBegin None)))) = None \<and>
   finished (res (step sampleEnv (FfError (FfmpegError ''boom''))
     (run sampleEnv [SseConnect 7 ''abc_mp3'', MetaSettled (ProcClose 0 (Some sampleMeta)), FfStart]
            (sampleBegin None)))) \<and>
   signals (procs (step sampleEnv (FfError (FfmpegError ''boom''))
     (run sampleEnv [SseConnect 7 ''abc_mp3'', MetaSettled (ProcClose 0 (Some sampleMeta)), FfStart]
            (sampleBegin None))) ! 1) = [SIGTERM] \<and>
   written (reg (step sampleEnv (FfError (FfmpegError ''boom''))
     (run sampleEnv [SseConnect 7 ''abc_mp3'', MetaSettled (ProcClose 0 (Some sampleMeta)), FfStart]
            (sampleBegin None)))) 7 = [Starting, Failure (FfmpegError ''boom'')]"
proof -
  let ?s = "run sampleEnv [SseConnect 7 ''abc_mp3'', MetaSettled (ProcClose 0 (Some sampleMeta)), FfStart]
              (sampleBegin None)"
  let ?s' = "step sampleEnv (FfError (FfmpegError ''boom'')) ?s"
  have r: "?s = run sampleEnv [SseConnect 7 ''abc_mp3'', MetaSettled (ProcClose 0 (Some sampleMeta)), FfStart]
                  (download_begin sampleEnv emptyRegistry Map.empty ''abc'' None None)"
    by (simp add: sampleBegin_def)
  have st: "stage ?s = Mp3Streaming"
    unfolding sampleBegin_def sampleEnv_def sampleMeta_def by code_simp
  have sg: "signals (procs ?s' ! 1) = [SIGTERM]"
    unfolding sampleBegin_def sampleEnv_def sampleMeta_def by code_simp
  have wr: "written (reg ?s') 7 = [Starting, Failure (FfmpegError ''boom'')]"
    unfolding sampleBegin_def sampleEnv_def sampleMeta_def by code_simp
  from ffmpeg_failure_after_headers [OF r st, of "FfmpegError ''boom''"]
  have "headersSent (res ?s)" and "statusCode (res ?s') = 200" and "jsonBody (res ?s') = None"
    and "finished (res ?s')"
    by blast+
  with st sg wr show ?thesis
    by (simp only: simp_thms)
qed

section \<open>The format parameter\<close>

lemma body_catch_block: "jsonBody (res (catch_block e s)) \<noteq> Some invalidFormat \<or> headersSent (res s)"
  by (simp add: catch_block_def status_json_def res_end_def invalidFormat_def)

lemma body_step:
  assumes "jsonBody (res (step env ev s)) = Some invalidFormat"
  shows "jsonBody (res s) = Some invalidFormat \<or> (format s \<noteq> ''mp3'' \<and> format s \<noteq> ''mp4'')"
proof (cases ev)
  case (MetaSettled out)
  then show ?thesis using assms
    by (auto simp add: catch_block_def on_metadata_def Let_def mp3_branch_def mp4_branch_def spawn_def
        status_json_def res_end_def flushHeaders_def setHeader_def invalidFormat_def fields_exitProc
        split: sum.splits prod.splits if_splits)
next
  case (ReqClose a)
  then show ?thesis using assms
    by (cases "dlProc s")
      (auto simp add: req_on_close_mp3_def onClientCloseWhileDownloading_def req_on_close_mp4_def
        settle_def fields_cleanupTemp split: if_splits)
next
  case YtProcExit
  then show ?thesis using assms by (auto simp add: fields_exitProc split: if_splits)
next
  case FfStart
  then show ?thesis using assms by (auto simp add: ff_on_start_def split: if_splits)
next
  case (FfProgress tm)
  then show ?thesis using assms by (auto simp add: ff_on_progress_def split: if_splits)
next
  case (FfError e)
  then show ?thesis using assms
    by (auto simp add: ff_on_error_def status_json_def res_end_def invalidFormat_def split: if_splits)
next
  case FfEnd
  then show ?thesis using assms by (auto simp add: ff_on_end_def split: if_splits)
next
  case FfPipeEnd
  then show ?thesis using assms by (auto simp add: ff_pipe_end_def res_end_def split: if_splits)
next
  case (DlWrites n)
  then show ?thesis using assms by (auto split: if_splits option.splits)
next
  case DlError
  then show ?thesis using assms
    by (auto simp add: dlProc_on_error_def reject_def catch_block_def status_json_def res_end_def
        invalidFormat_def fields_exitProc split: if_splits)
next
  case (DlClose code)
  then show ?thesis using assms
    by (auto simp add: dlProc_on_close_def reject_def resolve_def after_download_def catch_block_def
        status_json_def res_end_def setHeader_def invalidFormat_def fields_exitProc fields_cleanupTemp
        split: if_splits option.splits)
next
  case ReadError
  then show ?thesis using assms
    by (auto simp add: readStream_on_error_def settle_def fields_cleanupTemp split: if_splits)
next
  case ReadEnd
  then show ?thesis using assms
    by (auto simp add: readStream_on_end_def settle_def fields_cleanupTemp res_end_def split: if_splits)
qed (use assms in simp_all)

lemma body_run:
  "jsonBody (res (run env evs s)) = Some invalidFormat \<Longrightarrow>
   jsonBody (res s) = Some invalidFormat \<or> (format s \<noteq> ''mp3'' \<and> format s \<noteq> ''mp4'')"
proof (induction evs arbitrary: s)
  case Nil
  then show ?case by (simp add: run_def)
next
  case (Cons ev evs)
  from Cons.prems have "jsonBody (res (run env evs (step env ev s))) = Some invalidFormat"
    by (simp add: run_def)
  from Cons.IH [OF this] body_step [of env ev s] show ?case
    by (auto simp add: consts_step)
qed

lemma lowerChar_idem: "lowerChar (lowerChar c) = lowerChar c"
  by (auto simp add: lowerChar_def split: if_splits)

lemma toLowerCase_idem: "toLowerCase (toLowerCase f) = toLowerCase f"
  by (simp add: toLowerCase_def lowerChar_idem)

lemma toLowerCase_Nil: "(toLowerCase f = []) = (f = [])"
  by (simp add: toLowerCase_def)

lemma formatOf_lower: "formatOf (Some (toLowerCase f)) = formatOf (Some f)"
  by (simp add: formatOf_def toLowerCase_idem toLowerCase_Nil)

lemma formatOf_default: "formatOf None = ''mp3''" "formatOf (Some ''mp3'') = ''mp3''" "formatOf (Some ''MP4'') = ''mp4''"
  by (simp_all add: formatOf_def toLowerCase_def lowerChar_def)

text \<open>
  C9. Whatever the environment and the events: a request without a format parameter runs
  exactly as the same request with \<^verbatim>\<open>format=mp3\<close>; a request with format \<open>f\<close> runs
  exactly as the same request with \<open>f\<close> in lower case (so \<^verbatim>\<open>MP4\<close> is \<^verbatim>\<open>mp4\<close>); and
  a request without a format parameter is never answered with the invalid-format body.
\<close>

theorem format_default_and_case:
  "run env evs (download_begin env r dir vid None qkey) =
     run env evs (download_begin env r dir vid (Some ''mp3'') qkey) \<and>
   run env evs (download_begin env r dir vid (Some f) qkey) =
     run env evs (download_begin env r dir vid (Some (toLowerCase f)) qkey) \<and>
   formatOf (Some ''MP4'') = ''mp4'' \<and>
   jsonBody (res (run env evs (download_begin env r dir vid None qkey))) \<noteq> Some invalidFormat"
proof -
  have a: "download_begin env r dir vid None qkey = download_begin env r dir vid (Some ''mp3'') qkey"
    by (simp add: download_begin_def formatOf_default)
  have b: "download_begin env r dir vid (Some f) qkey = download_begin env r dir vid (Some (toLowerCase f)) qkey"
    by (simp add: download_begin_def formatOf_lower)
  have c: "jsonBody (res (run env evs (download_begin env r dir vid None qkey))) \<noteq> Some invalidFormat"
  proof
    assume "jsonBody (res (run env evs (download_begin env r dir vid None qkey))) = Some invalidFormat"
    from body_run [OF this] show False
      by (simp add: consts_begin formatOf_default download_begin_def freshResponse_def)
  qed
  show ?thesis using a b c by (simp add: formatOf_default)
qed

theorem format_default_and_case_witness:
  "run sampleEnv [MetaSettled (ProcClose 0 (Some sampleMeta))] (download_begin sampleEnv emptyRegistry Map.empty ''abc'' None None) =
     run sampleEnv [MetaSettled (ProcClose 0 (Some sampleMeta))] (download_begin sampleEnv emptyRegistry Map.empty ''abc'' (Some ''mp3'') None) \<and>
   run sampleEnv [MetaSettled (ProcClose 0 (Some sampleMeta))] (download_begin sampleEnv emptyRegistry Map.empty ''abc'' (Some ''MP4'') None) =
     run sampleEnv [MetaSettled (ProcClose 0 (Some sampleMeta))] (download_begin sampleEnv emptyRegistry Map.empty ''abc'' (Some ''mp4'') None) \<and>
   stage (run sampleEnv [MetaSettled (ProcClose 0 (Some sampleMeta))] (download_begin sampleEnv emptyRegistry Map.empty ''abc'' None None)) = Mp3Streaming \<and>
   stage (run sampleEnv [MetaSettled (ProcClose 0 (Some sampleMeta))] (download_begin sampleEnv emptyRegistry Map.empty ''abc'' (Some ''MP4'') None)) = Mp4Downloading \<and>
   jsonBody (res (run sampleEnv [MetaSettled (ProcClose 0 (Some sampleMeta))] (download_begin sampleEnv emptyRegistry Map.empty ''abc'' None None))) \<noteq> Some invalidFormat"
proof -
  have lo: "toLowerCase ''MP4'' = ''mp4''"
    by (simp add: toLowerCase_def lowerChar_def)
  have s3: "stage (run sampleEnv [MetaSettled (ProcClose 0 (Some sampleMeta))] (download_begin sampleEnv emptyRegistry Map.empty ''abc'' None None)) = Mp3Streaming"
    unfolding sampleEnv_def sampleMeta_def by code_simp
  have s4: "stage (run sampleEnv [MetaSettled (ProcClose 0 (Some sampleMeta))] (download_begin sampleEnv emptyRegistry Map.empty ''abc'' (Some ''MP4'') None)) = Mp4Downloading"
    unfolding sampleEnv_def sampleMeta_def by code_simp
  from format_default_and_case [of sampleEnv "[MetaSettled (ProcClose 0 (Some sampleMeta))]" emptyRegistry Map.empty "''abc''" None "''MP4''"]
  show ?thesis using s3 s4 unfolding lo by blast
qed

section \<open>Validation\<close>

lemma commands_kill: "map command (kill pid sg ps) = map command ps"
  by (rule nth_equalityI) (simp_all add: kill_simps)

lemma commands_markExited: "map command (markExited pid ps) = map command ps"
  by (rule nth_equalityI) (simp_all add: markExited_simps)

lemma commands_exitProc: "map command (procs (exitProc q s)) = map command (procs s)"
  by (cases q) (simp_all add: exitProc_def commands_markExited)

lemma commands_catch_block: "map command (procs (catch_block e s)) = map command (procs s)"
  by (cases "ytProc s") (simp_all add: catch_block_def commands_kill)

lemma commands_onClientClose: "map command (procs (onClientCloseWhileDownloading s)) = map command (procs s)"
  by (cases "dlProc s") (simp_all add: onClientCloseWhileDownloading_def commands_kill)

lemma commands_after_download: "map command (procs (after_download s)) = map command (procs s)"
  by (simp add: after_download_def commands_catch_block split: option.splits)

lemma commands_settle: "procs (settle st s) = procs s"
  by (simp add: settle_def)

lemma commands_reject: "map command (procs (reject e s)) = map command (procs s)"
  by (simp add: reject_def commands_catch_block)

lemma commands_resolve: "map command (procs (resolve s)) = map command (procs s)"
  by (simp add: resolve_def commands_after_download)

lemma commands_step:
  "stage s \<noteq> AwaitMeta \<Longrightarrow> map command (procs (step env ev s)) = map command (procs s)"
proof (cases ev)
  case (ReqClose a)
  then show ?thesis
    by (cases "ytProc s")
      (simp_all add: req_on_close_mp3_def req_on_close_mp4_def commands_settle fields_cleanupTemp
        commands_onClientClose commands_kill)
next
  case YtProcExit
  then show ?thesis by (simp add: commands_exitProc)
next
  case (FfError e)
  then show ?thesis by (cases "ytProc s") (simp_all add: ff_on_error_def commands_kill)
next
  case (DlWrites n)
  then show ?thesis by (simp split: option.splits)
next
  case DlError
  then show ?thesis by (simp add: dlProc_on_error_def commands_reject commands_exitProc)
next
  case (DlClose code)
  then show ?thesis
    by (simp add: dlProc_on_close_def commands_reject commands_resolve commands_exitProc fields_cleanupTemp)
next
  case ReadError
  then show ?thesis by (simp add: readStream_on_error_def commands_settle fields_cleanupTemp)
next
  case ReadEnd
  then show ?thesis by (simp add: readStream_on_end_def commands_settle fields_cleanupTemp)
qed (simp_all add: ff_on_start_def ff_on_progress_def ff_on_end_def ff_pipe_end_def)

lemma commands_run:
  "stage s \<noteq> AwaitMeta \<Longrightarrow> stage s \<noteq> Mp3Streaming \<Longrightarrow>
   map command (procs (run env evs s)) = map command (procs s)"
proof (induction evs arbitrary: s)
  case Nil
  show ?case by (simp add: run_def)
next
  case (Cons ev evs)
  from stage_step_not_mp3 [OF Cons.prems(2) Cons.prems(1), of env ev]
  have "map command (procs (run env evs (step env ev s))) = map command (procs (step env ev s))"
    by (intro Cons.IH) simp_all
  then show ?case using commands_step [OF Cons.prems(1), of env ev] by (simp add: run_def)
qed

lemma commands_begin:
  "map command (procs (download_begin env r dir vid qf qk)) =
     [if ytDlpExecWrapper env then YtDlpDumpSingleJson (urlOf vid) else YtDlpJson (urlOf vid)]"
  by (simp add: download_begin_def)

lemma durationOf_gt: "(3600 < durationOf m) = (\<exists>d. mduration m = Some d \<and> 3601 \<le> d)"
proof (cases "mduration m")
  case None
  then show ?thesis by (simp add: durationOf_def)
next
  case (Some d)
  have "(3600 < \<lfloor>d\<rfloor>) = (3601 \<le> d)"
    by (simp add: less_floor_iff)
  then show ?thesis using Some by (auto simp add: durationOf_def)
qed

lemma stage_run_not_mp3:
  "stage s \<noteq> Mp3Streaming \<Longrightarrow> stage s \<noteq> AwaitMeta \<Longrightarrow>
   stage (run env evs s) \<noteq> Mp3Streaming \<and> stage (run env evs s) \<noteq> AwaitMeta"
proof (induction evs arbitrary: s)
  case Nil
  then show ?case by (simp add: run_def)
next
  case (Cons ev evs)
  from stage_step_not_mp3 [OF Cons.prems, of env ev]
  have "stage (run env evs (step env ev s)) \<noteq> Mp3Streaming \<and>
        stage (run env evs (step env ev s)) \<noteq> AwaitMeta"
    by (intro Cons.IH) simp_all
  then show ?case by (simp add: run_def)
qed

lemma download_handler_awaiting:
  "stage (download_handler env r dir vid q qkey) = AwaitMeta \<Longrightarrow>
   \<exists>qformat. download_handler env r dir vid q qkey = download_begin env r dir vid qformat qkey"
  by (cases q) (auto simp add: download_handler_def)

text \<open>
  C3, as the code has it. The metadata lookup comes first: before the handler looks at
  the format, one yt-dlp process has been started for the lookup, by \<^verbatim>\<open>spawn\<close> or by
  the wrapper. For a request whose format parameter is a string that, in lower case, is
  neither mp3 nor mp4 (an empty string counts as mp3): if the lookup succeeds the response
  is a 400 with an error body (the too-long body if the duration is over the limit, the
  invalid-format body otherwise); if the lookup fails it is the 500 of the \<^verbatim>\<open>catch\<close>
  block; and in either case no further process is ever started, whatever happens
  afterwards: the process table keeps the lookup's command alone, and the mp3 branch,
  where the ffmpeg command is built, is never entered.
\<close>

theorem invalid_format_rejected_after_lookup:
  assumes "formatOf (Some f) \<noteq> ''mp3''" and "formatOf (Some f) \<noteq> ''mp4''"
    and "b = download_handler env r dir vid (QString f) qkey"
    and "s = step env (MetaSettled out) b"
  shows "map command (procs b) =
           [if ytDlpExecWrapper env then YtDlpDumpSingleJson (urlOf vid) else YtDlpJson (urlOf vid)] \<and>
         (\<forall>m. ytDlpMetadata_result out = Inr m \<longrightarrow>
            statusCode (res s) = 400 \<and> stage s = Rejected \<and>
            jsonBody (res s) = Some (if durationOf m > 3600 then tooLong else invalidFormat)) \<and>
         (\<forall>e. ytDlpMetadata_result out = Inl e \<longrightarrow>
            statusCode (res s) = 500 \<and> stage s = Failed \<and>
            jsonBody (res s) = Some (ErrorBody ''Download failed'' (Some e))) \<and>
         (\<forall>evs. map command (procs (run env evs s)) = map command (procs b) \<and>
                stage (run env evs s) \<noteq> Mp3Streaming)"
proof -
  have b: "b = download_begin env r dir vid (Some f) qkey"
    by (simp add: assms(3) download_handler_def)
  have st: "stage b = AwaitMeta" and fm: "format b = formatOf (Some f)"
    and hs: "\<not> headersSent (res b)"
    by (simp_all add: b download_begin_def freshResponse_def)
  let ?t = "exitProc (metaProc b) b"
  have t: "stage ?t = AwaitMeta" "format ?t = formatOf (Some f)" "res ?t = res b"
    by (simp_all add: fields_exitProc st fm)
  have ok: "statusCode (res s) = 400 \<and> stage s = Rejected \<and>
            jsonBody (res s) = Some (if durationOf m > 3600 then tooLong else invalidFormat)"
    if "ytDlpMetadata_result out = Inr m" for m
    using that assms(1,2) t
    by (simp add: assms(4) st on_metadata_def Let_def status_json_def tooLong_def invalidFormat_def)
  have bad: "statusCode (res s) = 500 \<and> stage s = Failed \<and>
             jsonBody (res s) = Some (ErrorBody ''Download failed'' (Some e))"
    if "ytDlpMetadata_result out = Inl e" for e
    using that t hs by (simp add: assms(4) st catch_block_def status_json_def)
  have stg: "stage s = Rejected \<or> stage s = Failed"
    using ok bad by (cases "ytDlpMetadata_result out") auto
  have cm: "map command (procs s) = map command (procs b)"
    using assms(1,2) t
    by (cases "ytDlpMetadata_result out")
      (simp_all add: assms(4) st commands_catch_block commands_exitProc on_metadata_def Let_def)
  have later: "map command (procs (run env evs s)) = map command (procs b) \<and>
               stage (run env evs s) \<noteq> Mp3Streaming" for evs
    using stg commands_run [of s env evs] stage_run_not_mp3 [of s env evs] cm by auto
  have cb: "map command (procs b) =
              [if ytDlpExecWrapper env then YtDlpDumpSingleJson (urlOf vid) else YtDlpJson (urlOf vid)]"
    unfolding b by (rule commands_begin)
  show ?thesis
    using ok bad later cb by blast
qed

theorem invalid_format_rejected_after_lookup_witness:
  "formatOf (Some ''wav'') = ''wav'' \<and>
   map command (procs (sampleRequest (QString ''wav''))) = [YtDlpJson ''https://www.youtube.com/watch?v=abc''] \<and>
   statusCode (res (step sampleEnv (MetaSettled (ProcClose 0 (Some sampleMeta))) (sampleRequest (QString ''wav'')))) = 400 \<and>
   stage (step sampleEnv (MetaSettled (ProcClose 0 (Some sampleMeta))) (sampleRequest (QString ''wav''))) = Rejected \<and>
   jsonBody (res (step sampleEnv (MetaSettled (ProcClose 0 (Some sampleMeta))) (sampleRequest (QString ''wav'')))) =
     Some invalidFormat \<and>
   map command (procs (run sampleEnv [ReqClose True, FfStart, DlClose 0]
     (step sampleEnv (MetaSettled (ProcClose 0 (Some sampleMeta))) (sampleRequest (QString ''wav''))))) =
     [YtDlpJson ''https://www.youtube.com/watch?v=abc''] \<and>
   stage (run sampleEnv [ReqClose True, FfStart, DlClose 0]
     (step sampleEnv (MetaSettled (ProcClose 0 (Some sampleMeta))) (sampleRequest (QString ''wav'')))) \<noteq> Mp3Streaming"
proof -
  have f: "formatOf (Some ''wav'') = ''wav''"
    by (simp add: formatOf_def toLowerCase_def lowerChar_def)
  have f3: "formatOf (Some ''wav'') \<noteq> ''mp3''" and f4: "formatOf (Some ''wav'') \<noteq> ''mp4''"
    by (simp_all add: f)
  have b: "sampleRequest (QString ''wav'') =
             download_handler sampleEnv emptyRegistry Map.empty ''abc'' (QString ''wav'') None"
    by (simp add: sampleRequest_def)
  have m: "ytDlpMetadata_result (ProcClose 0 (Some sampleMeta)) = Inr sampleMeta"
    by (simp add: ytDlpMetadata_result_def)
  have d: "\<not> durationOf sampleMeta > 3600"
    by (simp add: durationOf_def sampleMeta_def)
  have w: "\<not> ytDlpExecWrapper sampleEnv" and u: "urlOf ''abc'' = ''https://www.youtube.com/watch?v=abc''"
    by (simp_all add: sampleEnv_def urlOf_def)
  from invalid_format_rejected_after_lookup [OF f3 f4 b refl, of "ProcClose 0 (Some sampleMeta)"] m d w u f
  show ?thesis by simp
qed

text \<open>
  C3 as stated fails. For \<^verbatim>\<open>format=wav\<close> the lookup's \<^verbatim>\<open>yt-dlp -j\<close> has been spawned
  before the handler responds (and with the wrapper installed it is the wrapper's yt-dlp
  that has been started), and when that process cannot be started the response is a 500.
  For a format parameter that is not a string (\<^verbatim>\<open>format=a&format=b\<close> arrives as an
  array) the handler throws before its \<^verbatim>\<open>try\<close>: it sends neither a 400 nor any other
  response.
\<close>

theorem invalid_format_spawns_lookup_counterexample:
  "map command (procs (sampleRequest (QString ''wav''))) = [YtDlpJson ''https://www.youtube.com/watch?v=abc''] \<and>
   map command (procs (download_handler (sampleEnv\<lparr>ytDlpExecWrapper := True\<rparr>) emptyRegistry Map.empty ''abc''
      (QString ''wav'') None)) = [YtDlpDumpSingleJson ''https://www.youtube.com/watch?v=abc''] \<and>
   statusCode (res (step sampleEnv (MetaSettled ProcError) (sampleRequest (QString ''wav'')))) = 500 \<and>
   stage (sampleRequest QOther) = Threw \<and>
   jsonBody (res (sampleRequest QOther)) = None \<and>
   finished (res (sampleRequest QOther)) = False \<and>
   finished (res (run sampleEnv [MetaSettled (ProcClose 0 (Some sampleMeta)), ReqClose True]
      (sampleRequest QOther))) = False"
  unfolding sampleRequest_def sampleEnv_def sampleMeta_def by code_simp

text \<open>
  C4, as the code has it. The duration is only known from the metadata lookup, for which
  one yt-dlp process has been started, by \<^verbatim>\<open>spawn\<close> or by the wrapper. When the lookup
  succeeds and the duration rounded down to whole seconds is over 3600, that is when the
  duration is at least 3601 seconds, the response is a 400 with the too-long body,
  whatever the format, and no further process is ever started: the process table keeps
  the lookup's command alone, and the mp3 branch, where the ffmpeg command is built, is
  never entered.
\<close>

theorem too_long_rejected_after_lookup:
  assumes "ytDlpMetadata_result out = Inr m" and "durationOf m > 3600"
    and "b = download_handler env r dir vid q qkey" and "stage b = AwaitMeta"
    and "s = step env (MetaSettled out) b"
  shows "(\<exists>d. mduration m = Some d \<and> 3601 \<le> d) \<and>
         statusCode (res s) = 400 \<and> stage s = Rejected \<and> jsonBody (res s) = Some tooLong \<and>
         map command (procs b) =
           [if ytDlpExecWrapper env then YtDlpDumpSingleJson (urlOf vid) else YtDlpJson (urlOf vid)] \<and>
         (\<forall>evs. map command (procs (run env evs s)) = map command (procs b) \<and>
                stage (run env evs s) \<noteq> Mp3Streaming)"
proof -
  from download_handler_awaiting [of env r dir vid q qkey] assms(3,4)
  obtain qformat where b: "b = download_begin env r dir vid qformat qkey"
    by auto
  have ok: "statusCode (res s) = 400 \<and> stage s = Rejected \<and> jsonBody (res s) = Some tooLong"
    using assms(1,2)
    by (simp add: assms(5) assms(4) on_metadata_def status_json_def tooLong_def fields_exitProc)
  have cm: "map command (procs s) = map command (procs b)"
    using assms(1,2)
    by (simp add: assms(5) assms(4) on_metadata_def commands_exitProc)
  have later: "map command (procs (run env evs s)) = map command (procs b) \<and>
               stage (run env evs s) \<noteq> Mp3Streaming" for evs
    using ok commands_run [of s env evs] stage_run_not_mp3 [of s env evs] cm by auto
  have cb: "map command (procs b) =
              [if ytDlpExecWrapper env then YtDlpDumpSingleJson (urlOf vid) else YtDlpJson (urlOf vid)]"
    unfolding b by (rule commands_begin)
  have du: "\<exists>d. mduration m = Some d \<and> 3601 \<le> d"
    using assms(2) durationOf_gt [of m] by simp
  show ?thesis
    using ok later cb du by blast
qed

theorem too_long_rejected_after_lookup_witness:
  "durationOf \<lparr>title = None, mduration = Some 3601\<rparr> = 3601 \<and>
   stage (sampleRequest (QString ''mp4'')) = AwaitMeta \<and>
   map command (procs (sampleRequest (QString ''mp4''))) = [YtDlpJson ''https://www.youtube.com/watch?v=abc''] \<and>
   statusCode (res (step sampleEnv (MetaSettled (ProcClose 0 (Some \<lparr>title = None, mduration = Some 3601\<rparr>)))
     (sampleRequest (QString ''mp4'')))) = 400 \<and>
   stage (step sampleEnv (MetaSettled (ProcClose 0 (Some \<lparr>title = None, mduration = Some 3601\<rparr>)))
     (sampleRequest (QString ''mp4''))) = Rejected \<and>
   jsonBody (res (step sampleEnv (MetaSettled (ProcClose 0 (Some \<lparr>title = None, mduration = Some 3601\<rparr>)))
     (sampleRequest (QString ''mp4'')))) = Some tooLong \<and>
   map command (procs (run sampleEnv [DlWrites 5, ReqClose True]
     (step sampleEnv (MetaSettled (ProcClose 0 (Some \<lparr>title = None, mduration = Some 3601\<rparr>)))
       (sampleRequest (QString ''mp4''))))) = [YtDlpJson ''https://www.youtube.com/watch?v=abc'']"
proof -
  have b: "sampleRequest (QString ''mp4'') =
             download_handler sampleEnv emptyRegistry Map.empty ''abc'' (QString ''mp4'') None"
    by (simp add: sampleRequest_def)
  have a: "stage (sampleRequest (QString ''mp4'')) = AwaitMeta"
    by (simp add: sampleRequest_def download_handler_def download_begin_def)
  have m: "ytDlpMetadata_result (ProcClose 0 (Some \<lparr>title = None, mduration = Some 3601\<rparr>)) =
             Inr \<lparr>title = None, mduration = Some 3601\<rparr>"
    by (simp add: ytDlpMetadata_result_def)
  have d: "durationOf \<lparr>title = None, mduration = Some 3601\<rparr> = 3601"
    by (simp add: durationOf_def)
  have d': "durationOf \<lparr>title = None, mduration = Some 3601\<rparr> > 3600"
    by (simp add: d)
  have w: "\<not> ytDlpExecWrapper sampleEnv" and u: "urlOf ''abc'' = ''https://www.youtube.com/watch?v=abc''"
    by (simp_all add: sampleEnv_def urlOf_def)
  from too_long_rejected_after_lookup [OF m d' b a refl] d a w u
  show ?thesis by simp
qed

text \<open>
  C4 as stated fails: for a duration of 3601 seconds a yt-dlp process has been started
  for the lookup before the 400 (by \<^verbatim>\<open>spawn\<close>, or by the wrapper when it is
  installed); and a duration of 3600.5 seconds, which exceeds 3600, is not rejected (the
  mp3 stream starts).
\<close>

theorem too_long_spawns_lookup_counterexample:
  "map command (procs (sampleRequest QAbsent)) = [YtDlpJson ''https://www.youtube.com/watch?v=abc''] \<and>
   map command (procs (download_handler (sampleEnv\<lparr>ytDlpExecWrapper := True\<rparr>) emptyRegistry Map.empty ''abc''
      QAbsent None)) = [YtDlpDumpSingleJson ''https://www.youtube.com/watch?v=abc''] \<and>
   statusCode (res (step sampleEnv (MetaSettled (ProcClose 0 (Some \<lparr>title = None, mduration = Some 3601\<rparr>)))
     (sampleRequest QAbsent))) = 400 \<and>
   stage (step sampleEnv (MetaSettled (ProcClose 0 (Some \<lparr>title = None, mduration = Some (7201 / 2)\<rparr>)))
     (sampleRequest QAbsent)) = Mp3Streaming"
  unfolding sampleRequest_def sampleEnv_def by code_simp

section \<open>Removal of registry entries\<close>

lemma fields_foldl_onProgress:
  "progressEmitters (foldl (\<lambda>r' l. onProgress l p r') r ls) = progressEmitters r"
  "listenersOf (foldl (\<lambda>r' l. onProgress l p r') r ls) = listenersOf r"
  "conns (foldl (\<lambda>r' l. onProgress l p r') r ls) = conns r"
  by (induction ls arbitrary: r) (simp_all add: onProgress_def)

lemma fields_sendProgress:
  "progressEmitters (sendProgress k p r) = progressEmitters r"
  "listenersOf (sendProgress k p r) = listenersOf r"
  "conns (sendProgress k p r) = conns r"
  by (simp_all add: sendProgress_def emit_def fields_foldl_onProgress split: option.splits)

lemma entry_getEmitter:
  "progressEmitters r k \<noteq> None \<Longrightarrow> progressEmitters (snd (getEmitter k' r)) k \<noteq> None"
  by (simp add: getEmitter_def split: option.splits)

lemma entry_progress_connect:
  "progressEmitters r k \<noteq> None \<Longrightarrow> progressEmitters (progress_connect l k' r) k \<noteq> None"
  by (simp add: progress_connect_def getEmitter_def split: option.splits)

lemma entry_progress_close:
  "progressEmitters (progress_close l r) k =
     (if \<exists>e. conns r l = Some (k, e) \<and> removeListener l (listenersOf r e) = []
      then None else progressEmitters r k)"
  by (cases "conns r l") (auto simp add: progress_close_def Let_def)

lemma reg_catch_block: "reg (catch_block e s) = reg s"
  by (simp add: catch_block_def)

lemma reg_onClientClose: "reg (onClientCloseWhileDownloading s) = reg s"
  by (cases "dlProc s") (simp_all add: onClientCloseWhileDownloading_def)

lemma reg_settle: "reg (settle st s) = reg s"
  by (simp add: settle_def)

lemma reg_after_download: "reg (after_download s) = reg s"
  by (simp add: after_download_def reg_catch_block split: option.splits)

lemma reg_reject: "reg (reject e s) = reg s"
  by (simp add: reject_def reg_catch_block)

lemma reg_resolve: "reg (resolve s) = reg s"
  by (simp add: resolve_def reg_after_download)

lemma entry_on_metadata:
  "progressEmitters (reg s) k \<noteq> None \<Longrightarrow> progressEmitters (reg (on_metadata env m s)) k \<noteq> None"
  by (auto simp add: on_metadata_def Let_def mp3_branch_def mp4_branch_def spawn_def getEmitter_def
      split: prod.splits option.splits)

lemma entry_step:
  assumes "progressEmitters (reg s) k \<noteq> None" and "\<forall>l. ev \<noteq> SseClose l"
  shows "progressEmitters (reg (step env ev s)) k \<noteq> None"
proof (cases ev)
  case (MetaSettled out)
  have "progressEmitters (reg (exitProc (metaProc s) s)) k \<noteq> None"
    using assms(1) by (simp add: fields_exitProc)
  from entry_on_metadata [OF this] show ?thesis using MetaSettled assms(1)
    by (simp add: reg_catch_block fields_exitProc split: sum.splits)
next
  case (ReqClose a)
  then show ?thesis using assms(1)
    by (simp add: req_on_close_mp3_def req_on_close_mp4_def reg_settle fields_cleanupTemp_more
        reg_onClientClose fields_sendProgress)
next
  case YtProcExit
  then show ?thesis using assms(1) by (simp add: fields_exitProc)
next
  case (DlWrites n)
  then show ?thesis using assms(1) by (simp split: option.splits)
next
  case DlError
  then show ?thesis using assms(1) by (simp add: dlProc_on_error_def reg_reject fields_exitProc)
next
  case (DlClose code)
  then show ?thesis using assms(1)
    by (simp add: dlProc_on_close_def reg_reject reg_resolve fields_exitProc fields_cleanupTemp_more)
next
  case ReadError
  then show ?thesis using assms(1) by (simp add: readStream_on_error_def reg_settle fields_cleanupTemp_more)
next
  case ReadEnd
  then show ?thesis using assms(1) by (simp add: readStream_on_end_def reg_settle fields_cleanupTemp_more)
next
  case (SseConnect l k')
  then show ?thesis using assms(1) by (simp add: entry_progress_connect)
next
  case (SseClose l)
  then show ?thesis using assms(2) by simp
qed (use assms(1) in \<open>simp_all add: ff_on_start_def ff_on_progress_def ff_on_error_def ff_on_end_def
      ff_pipe_end_def fields_sendProgress\<close>)

text \<open>
  C5, as the code has it. No event of a download and no new subscriber removes an entry
  of \<open>progressEmitters\<close>: an entry that is there before such an event is there after it.
  The one event that removes an entry is the close of a subscriber's connection, and it
  removes the entry of the connection's key exactly when the emitter the connection
  subscribed to is left without listeners. It looks at nothing else: the stage of the
  download and its processes are neither read nor changed.
\<close>

theorem registry_entry_removed_by_subscriber_alone:
  "((\<forall>l. ev \<noteq> SseClose l) \<longrightarrow> progressEmitters (reg s) k \<noteq> None \<longrightarrow>
      progressEmitters (reg (step env ev s)) k \<noteq> None) \<and>
   progressEmitters (reg (step env (SseClose l) s)) k =
     (if \<exists>e. conns (reg s) l = Some (k, e) \<and> removeListener l (listenersOf (reg s) e) = []
      then None else progressEmitters (reg s) k) \<and>
   stage (step env (SseClose l) s) = stage s \<and>
   procs (step env (SseClose l) s) = procs s"
  using entry_step [of s k ev env] by (simp add: entry_progress_close)

theorem registry_entry_removed_by_subscriber_alone_witness:
  "progressEmitters (reg (run sampleEnv [MetaSettled (ProcClose 0 (Some sampleMeta)), SseConnect 7 ''abc_mp3'', SseConnect 8 ''abc_mp3'']
      (sampleBegin None))) ''abc_mp3'' = Some 0 \<and>
   progressEmitters (reg (step sampleEnv FfEnd
     (run sampleEnv [MetaSettled (ProcClose 0 (Some sampleMeta)), SseConnect 7 ''abc_mp3'', SseConnect 8 ''abc_mp3'']
      (sampleBegin None)))) ''abc_mp3'' \<noteq> None \<and>
   progressEmitters (reg (step sampleEnv (SseClose 7)
     (run sampleEnv [MetaSettled (ProcClose 0 (Some sampleMeta)), SseConnect 7 ''abc_mp3'', SseConnect 8 ''abc_mp3'']
      (sampleBegin None)))) ''abc_mp3'' = Some 0"
proof -
  let ?s = "run sampleEnv [MetaSettled (ProcClose 0 (Some sampleMeta)), SseConnect 7 ''abc_mp3'', SseConnect 8 ''abc_mp3'']
      (sampleBegin None)"
  have e: "progressEmitters (reg ?s) ''abc_mp3'' = Some 0"
    unfolding sampleBegin_def sampleEnv_def sampleMeta_def by code_simp
  have c: "conns (reg ?s) 7 = Some (''abc_mp3'', 0)"
    unfolding sampleBegin_def sampleEnv_def sampleMeta_def by code_simp
  have l: "removeListener 7 (listenersOf (reg ?s) 0) = [8]"
    unfolding sampleBegin_def sampleEnv_def sampleMeta_def by code_simp
  have ne: "\<forall>l. FfEnd \<noteq> SseClose l" by simp
  from registry_entry_removed_by_subscriber_alone [of FfEnd ?s "''abc_mp3''" sampleEnv 7] e c l ne
  show ?thesis by simp
qed

text \<open>
  C5 as stated fails: a download is streaming mp3 under the key \<^verbatim>\<open>abc_mp3\<close>, its
  only subscriber disconnects, and the entry is removed although the producing operation
  has not ended (the response is not finished, the fetch process is running).
\<close>

theorem registry_entry_removed_while_producing_counterexample:
  "progressEmitters (reg (run sampleEnv [MetaSettled (ProcClose 0 (Some sampleMeta)), SseConnect 7 ''abc_mp3'', FfStart]
      (sampleBegin None))) ''abc_mp3'' = Some 0 \<and>
   progressEmitters (reg (run sampleEnv [MetaSettled (ProcClose 0 (Some sampleMeta)), SseConnect 7 ''abc_mp3'', FfStart, SseClose 7]
      (sampleBegin None))) ''abc_mp3'' = None \<and>
   stage (run sampleEnv [MetaSettled (ProcClose 0 (Some sampleMeta)), SseConnect 7 ''abc_mp3'', FfStart, SseClose 7]
      (sampleBegin None)) = Mp3Streaming \<and>
   finished (res (run sampleEnv [MetaSettled (ProcClose 0 (Some sampleMeta)), SseConnect 7 ''abc_mp3'', FfStart, SseClose 7]
      (sampleBegin None))) = False \<and>
   exited (procs (run sampleEnv [MetaSettled (ProcClose 0 (Some sampleMeta)), SseConnect 7 ''abc_mp3'', FfStart, SseClose 7]
      (sampleBegin None)) ! 1) = False"
  unfolding sampleBegin_def sampleEnv_def sampleMeta_def by code_simp

section \<open>The progress percentage\<close>

lemma durationOf_zero:
  "mduration m = None \<or> mduration m = Some 0 \<Longrightarrow> durationOf m = 0"
  by (auto simp add: durationOf_def)

lemma percent_Num:
  "d \<noteq> 0 \<Longrightarrow> toSeconds env tm = Num x \<Longrightarrow>
   percent env d tm =
     Some (Num (of_int (min 100 \<lfloor>roundDouble env (roundDouble env (x / of_int d) * 100)\<rfloor>)))"
  by (simp add: percent_def Let_def js_div_def js_mul_def Math_floor_def Math_min_def of_int_min)

lemma percent_NaN:
  "d \<noteq> 0 \<Longrightarrow> toSeconds env tm = NaN \<Longrightarrow> percent env d tm = Some NaN"
  by (simp add: percent_def Let_def js_div_def js_mul_def Math_floor_def Math_min_def)

text \<open>
  C7, as the code has it. The duration the handler keeps is the metadata duration rounded
  down, 0 when the metadata has none. For every progress update: the payload published
  under the client key carries the percentage computed from that duration; the percentage
  is null when the duration is 0 (so whenever the metadata duration is absent or zero);
  otherwise, for a time mark that parses to the number \<open>x\<close>, it is the quotient
  \<open>x / duration\<close> times 100, each operation rounded to a double, then rounded down and
  capped at 100. There is no lower bound in the code: the result lies between 0 and 100
  when the elapsed seconds are not negative and the duration is positive (rounding to the
  nearest double never turns a non-negative number negative, which is the assumption on
  \<open>roundDouble\<close>).
\<close>

theorem progress_percent_capped_above:
  assumes "\<forall>x. 0 \<le> x \<longrightarrow> 0 \<le> roundDouble env x"
  shows "(mduration m = None \<or> mduration m = Some 0 \<longrightarrow> durationOf m = 0) \<and>
         (durationOf m = 0 \<longrightarrow> percent env (durationOf m) tm = None) \<and>
         (\<forall>x. durationOf m \<noteq> 0 \<and> toSeconds env tm = Num x \<longrightarrow>
            percent env (durationOf m) tm =
              Some (Num (of_int (min 100
                \<lfloor>roundDouble env (roundDouble env (x / of_int (durationOf m)) * 100)\<rfloor>)))) \<and>
         (\<forall>x. 0 < durationOf m \<and> toSeconds env tm = Num x \<and> 0 \<le> x \<longrightarrow>
            (\<exists>n. percent env (durationOf m) tm = Some (Num (of_int n)) \<and> 0 \<le> n \<and> n \<le> 100)) \<and>
         (format s = ''mp3'' \<and> \<not> durationOf m > 3600 \<longrightarrow> duration (on_metadata env m s) = durationOf m) \<and>
         reg (ff_on_progress env tm s) =
           sendProgress (clientKey s) (Converting (percent env (duration s) tm) tm) (reg s)"
proof -
  have z: "percent env (durationOf m) tm = None" if "durationOf m = 0"
    using that by (simp add: percent_def)
  have range: "\<exists>n. percent env (durationOf m) tm = Some (Num (of_int n)) \<and> 0 \<le> n \<and> n \<le> 100"
    if d: "0 < durationOf m" and t: "toSeconds env tm = Num x" and x: "0 \<le> x" for x
  proof -
    let ?q = "roundDouble env (x / of_int (durationOf m))"
    let ?n = "min 100 \<lfloor>roundDouble env (?q * 100)\<rfloor>"
    have "0 \<le> x / of_int (durationOf m)" using d x by simp
    with assms have "0 \<le> ?q" by blast
    then have "0 \<le> ?q * 100" by simp
    with assms have "0 \<le> roundDouble env (?q * 100)" by blast
    then have "0 \<le> ?n" by simp
    moreover have "?n \<le> 100" by simp
    moreover have "percent env (durationOf m) tm = Some (Num (of_int ?n))"
      using d t by (simp add: percent_Num)
    ultimately show ?thesis by blast
  qed
  have dur: "duration (on_metadata env m s) = durationOf m"
    if "format s = ''mp3''" "\<not> durationOf m > 3600"
    using that by (simp add: on_metadata_def Let_def mp3_branch_def spawn_def split: prod.splits)
  have pub: "reg (ff_on_progress env tm s) =
               sendProgress (clientKey s) (Converting (percent env (duration s) tm) tm) (reg s)"
    by (simp add: ff_on_progress_def)
  show ?thesis
    using durationOf_zero [of m] z percent_Num [of "durationOf m" env tm] range dur pub by blast
qed

theorem progress_percent_capped_above_witness:
  "toSeconds sampleEnv (Some ''00:00:50.00'') = Num 50 \<and>
   percent sampleEnv (durationOf \<lparr>title = None, mduration = Some 100\<rparr>) (Some ''00:00:50.00'') = Some (Num 50) \<and>
   percent sampleEnv (durationOf \<lparr>title = None, mduration = None\<rparr>) (Some ''00:00:50.00'') = None"
proof -
  have r: "\<forall>x. 0 \<le> x \<longrightarrow> 0 \<le> roundDouble sampleEnv x"
    by (simp add: sampleEnv_def)
  have t: "toSeconds sampleEnv (Some ''00:00:50.00'') = Num 50"
    by (simp add: toSeconds_def sampleEnv_def sampleParse_def js_add_def js_mul_def)
  have d: "durationOf \<lparr>title = None, mduration = Some 100\<rparr> = 100"
    and d0: "durationOf \<lparr>title = None, mduration = None\<rparr> = 0"
    by (simp_all add: durationOf_def)
  have rd: "roundDouble sampleEnv = (\<lambda>x. x)"
    by (simp add: sampleEnv_def)
  from progress_percent_capped_above [OF r, of "\<lparr>title = None, mduration = Some 100\<rparr>" "Some ''00:00:50.00''"] t d
  have a: "percent sampleEnv (durationOf \<lparr>title = None, mduration = Some 100\<rparr>) (Some ''00:00:50.00'') = Some (Num 50)"
    by (simp add: rd)
  from progress_percent_capped_above [OF r, of "\<lparr>title = None, mduration = None\<rparr>" "Some ''00:00:50.00''"] d0
  have b: "percent sampleEnv (durationOf \<lparr>title = None, mduration = None\<rparr>) (Some ''00:00:50.00'') = None"
    by simp
  from t a b show ?thesis by (simp only: simp_thms)
qed

text \<open>
  C7 as stated fails for a negative time mark: with a duration of 100 seconds, the time
  mark \<^verbatim>\<open>-01:00:00.00\<close> is \<open>-3600\<close> seconds and the published percentage is
  \<open>-3600\<close>, not a value clamped to the range from 0 to 100. (All the numbers involved
  are integers, on which the double operations are exact.)
\<close>

theorem progress_percent_negative_counterexample:
  "toSeconds sampleEnv (Some ''-01:00:00.00'') = Num (- 3600) \<and>
   percent sampleEnv 100 (Some ''-01:00:00.00'') = Some (Num (- 3600)) \<and>
   written (reg (run sampleEnv
       [SseConnect 7 ''abc_mp3'', MetaSettled (ProcClose 0 (Some \<lparr>title = None, mduration = Some 100\<rparr>)),
        FfProgress (Some ''-01:00:00.00'')]
       (sampleBegin None))) 7 =
     [Converting (Some (Num (- 3600))) (Some ''-01:00:00.00'')]"
  unfolding sampleBegin_def sampleEnv_def sampleParse_def by code_simp

section \<open>Deletion of the temporary file\<close>

text \<open>
  Take any request, any environment and any sequence of events, the downloads directory
  holding no file with the request's time stamp beforehand. If the handler has named a
  temporary file \<open>p\<close>, then: \<open>p\<close> has been unlinked at most once; while it is
  present it has been written and never unlinked; once it is absent it has been unlinked
  exactly once if it was ever written (and never if it was not); in a terminal stage it
  is absent. Each callback that is meant to delete the file leaves it absent: the
  \<^verbatim>\<open>end\<close> and \<^verbatim>\<open>error\<close> callbacks of the read stream, the \<^verbatim>\<open>close\<close> callback of
  the request registered for the delivery, the \<^verbatim>\<open>catch\<close> block, and, while the download
  is awaited, the \<^verbatim>\<open>close\<close> callback of yt-dlp after an abort or with a code other
  than 0 and its \<^verbatim>\<open>error\<close> callback. Deleting is idempotent: a second
  \<^verbatim>\<open>cleanupTemp\<close> leaves the whole state as the first left it, and the guarded unlink
  never reaches \<^verbatim>\<open>unlinkSync\<close> on a missing file, so it never throws.
\<close>

lemma temp_file_deleted_by_each_callback:
  assumes "\<forall>stem. dir (TempFile stem (now env)) = None"
    and "s = run env evs (download_begin env r dir vid qformat qkey)"
    and "tempFilePath s = Some p"
  shows "unlinks p (fs s) \<le> 1 \<and>
         (present (fs s) p \<noteq> None \<longrightarrow> unlinks p (fs s) = 0 \<and> created p (fs s)) \<and>
         (present (fs s) p = None \<longrightarrow> unlinks p (fs s) = (if created p (fs s) then 1 else 0)) \<and>
         (terminal (stage s) \<longrightarrow> present (fs s) p = None) \<and>
         present (fs (readStream_on_end s)) p = None \<and>
         present (fs (readStream_on_error s)) p = None \<and>
         present (fs (req_on_close_mp4 s)) p = None \<and>
         (\<forall>e. present (fs (catch_block e s)) p = None) \<and>
         (stage s = Mp4Downloading \<longrightarrow>
            (\<forall>code. abortedDuringDownload s \<or> code \<noteq> 0 \<longrightarrow> present (fs (dlProc_on_close code s)) p = None) \<and>
            present (fs (dlProc_on_error s)) p = None) \<and>
         cleanupTemp (cleanupTemp s) = cleanupTemp s \<and>
         (\<forall>f. unlinkIfExists p (unlinkIfExists p f) = unlinkIfExists p f) \<and>
         (\<forall>f. existsSync p f \<longrightarrow> (\<exists>f'. unlinkSync p f = Inr f'))"
proof -
  have "inv_fs env s"
    unfolding assms(2) by (rule inv_fs_run) (rule inv_fs_begin [OF assms(1)])
  with assms(3) have ok: "fileOk p (stage s) (fs s)"
    by (simp add: inv_fs_def)
  have idem: "unlinkIfExists p (unlinkIfExists p f) = unlinkIfExists p f" for f
    by (simp add: unlinkIfExists_absent present_unlinkIfExists)
  have twice: "cleanupTemp (cleanupTemp s) = cleanupTemp s"
    using assms(3) by (simp add: cleanupTemp_def idem)
  have nothrow: "\<exists>f'. unlinkSync p f = Inr f'" if "existsSync p f" for f
    using that by (auto simp: existsSync_def unlinkSync_def)
  have once: "unlinks p (fs s) \<le> 1"
    using ok by (cases "present (fs s) p") (auto simp: fileOk_def)
  have here: "unlinks p (fs s) = 0 \<and> created p (fs s)" if "present (fs s) p \<noteq> None"
    using ok that by (simp add: fileOk_def)
  have away: "unlinks p (fs s) = (if created p (fs s) then 1 else 0)" if "present (fs s) p = None"
    using ok that by (simp add: fileOk_def)
  have gone: "present (fs s) p = None" if "terminal (stage s)"
    using ok that by (simp add: fileOk_def)
  have cl: "present (fs (cleanupTemp s)) p = None"
    using assms(3) by (simp add: cleanupTemp_def present_unlinkIfExists)
  have rend: "present (fs (readStream_on_end s)) p = None"
    using cl by (simp add: readStream_on_end_def settle_def)
  have rerr: "present (fs (readStream_on_error s)) p = None"
    using cl by (simp add: readStream_on_error_def settle_def)
  have rclose: "present (fs (req_on_close_mp4 s)) p = None"
    using cl by (simp add: req_on_close_mp4_def settle_def)
  have catch: "present (fs (catch_block e s)) p = None" for e
    using assms(3) by (simp add: catch_block_def present_unlinkIfExists)
  have dclose: "present (fs (dlProc_on_close code s)) p = None"
    if "stage s = Mp4Downloading" "abortedDuringDownload s \<or> code \<noteq> 0" for code
    using that assms(3)
    by (auto simp add: dlProc_on_close_def reject_def cleanupTemp_def catch_block_def present_unlinkIfExists)
  have derr: "present (fs (dlProc_on_error s)) p = None" if "stage s = Mp4Downloading"
    using that catch by (simp add: dlProc_on_error_def reject_def)
  show ?thesis
    using once here away gone rend rerr rclose catch dclose derr twice idem nothrow by blast
qed

text \<open>
  C1. The temporary file is not deleted on every path on which the client disconnects.
  The handler registers its \<^verbatim>\<open>close\<close> callbacks on the request only in the mp4 branch
  (before the download and before the delivery), after the \<^verbatim>\<open>await\<close> of the metadata;
  a \<^verbatim>\<open>close\<close> of the request during that \<^verbatim>\<open>await\<close> runs no callback of the handler,
  and the request closes only once. For the sample video requested as mp4: the
  \<^verbatim>\<open>close\<close> leaves the state as it was; the metadata then arrive, yt-dlp writes the
  file of 1000 bytes and exits with code 0; the handler is then delivering to the closed
  connection, the file is present with its 1000 bytes and has never been unlinked,
  neither process has been sent a signal and the response has not been ended. With the
  same events and the \<^verbatim>\<open>close\<close> last, the file is absent and has been unlinked once.
\<close>

theorem temp_file_left_after_early_close:
  "step sampleEnv (ReqClose True) (sampleBegin (Some ''mp4'')) = sampleBegin (Some ''mp4'') \<and>
   (stage
     (run sampleEnv [ReqClose True, MetaSettled (ProcClose 0 (Some sampleMeta)), DlWrites 1000, DlClose 0]
        (sampleBegin (Some ''mp4''))) = Mp4Delivering \<and>
   tempFilePath
     (run sampleEnv [ReqClose True, MetaSettled (ProcClose 0 (Some sampleMeta)), DlWrites 1000, DlClose 0]
        (sampleBegin (Some ''mp4''))) = Some (TempFile ''Clip_1'' 42) \<and>
   present
     (fs (run sampleEnv [ReqClose True, MetaSettled (ProcClose 0 (Some sampleMeta)), DlWrites 1000, DlClose 0]
        (sampleBegin (Some ''mp4'')))) (TempFile ''Clip_1'' 42) = Some 1000 \<and>
   unlinks (TempFile ''Clip_1'' 42)
     (fs (run sampleEnv [ReqClose True, MetaSettled (ProcClose 0 (Some sampleMeta)), DlWrites 1000, DlClose 0]
        (sampleBegin (Some ''mp4'')))) = 0 \<and>
   map signals
     (procs (run sampleEnv [ReqClose True, MetaSettled (ProcClose 0 (Some sampleMeta)), DlWrites 1000, DlClose 0]
        (sampleBegin (Some ''mp4'')))) = [[], []] \<and>
   finished
     (res (run sampleEnv [ReqClose True, MetaSettled (ProcClose 0 (Some sampleMeta)), DlWrites 1000, DlClose 0]
        (sampleBegin (Some ''mp4'')))) = False \<and>
   present
     (fs (run sampleEnv [MetaSettled (ProcClose 0 (Some sampleMeta)), DlWrites 1000, DlClose 0, ReqClose True]
        (sampleBegin (Some ''mp4'')))) (TempFile ''Clip_1'' 42) = None \<and>
   unlinks (TempFile ''Clip_1'' 42)
     (fs (run sampleEnv [MetaSettled (ProcClose 0 (Some sampleMeta)), DlWrites 1000, DlClose 0, ReqClose True]
        (sampleBegin (Some ''mp4'')))) = 1)"
proof (rule conjI)
  have "stage (sampleBegin (Some ''mp4'')) = AwaitMeta"
    by (simp add: sampleBegin_def download_begin_def)
  then show "step sampleEnv (ReqClose True) (sampleBegin (Some ''mp4'')) = sampleBegin (Some ''mp4'')"
    by (simp add: delivering_def)
next
  show "stage
     (run sampleEnv [ReqClose True, MetaSettled (ProcClose 0 (Some sampleMeta)), DlWrites 1000, DlClose 0]
        (sampleBegin (Some ''mp4''))) = Mp4Delivering \<and>
   tempFilePath
     (run sampleEnv [ReqClose True, MetaSettled (ProcClose 0 (Some sampleMeta)), DlWrites 1000, DlClose 0]
        (sampleBegin (Some ''mp4''))) = Some (TempFile ''Clip_1'' 42) \<and>
   present
     (fs (run sampleEnv [ReqClose True, MetaSettled (ProcClose 0 (Some sampleMeta)), DlWrites 1000, DlClose 0]
        (sampleBegin (Some ''mp4'')))) (TempFile ''Clip_1'' 42) = Some 1000 \<and>
   unlinks (TempFile ''Clip_1'' 42)
     (fs (run sampleEnv [ReqClose True, MetaSettled (ProcClose 0 (Some sampleMeta)), DlWrites 1000, DlClose 0]
        (sampleBegin (Some ''mp4'')))) = 0 \<and>
   map signals
     (procs (run sampleEnv [ReqClose True, MetaSettled (ProcClose 0 (Some sampleMeta)), DlWrites 1000, DlClose 0]
        (sampleBegin (Some ''mp4'')))) = [[], []] \<and>
   finished
     (res (run sampleEnv [ReqClose True, MetaSettled (ProcClose 0 (Some sampleMeta)), DlWrites 1000, DlClose 0]
        (sampleBegin (Some ''mp4'')))) = False \<and>
   present
     (fs (run sampleEnv [MetaSettled (ProcClose 0 (Some sampleMeta)), DlWrites 1000, DlClose 0, ReqClose True]
        (sampleBegin (Some ''mp4'')))) (TempFile ''Clip_1'' 42) = None \<and>
   unlinks (TempFile ''Clip_1'' 42)
     (fs (run sampleEnv [MetaSettled (ProcClose 0 (Some sampleMeta)), DlWrites 1000, DlClose 0, ReqClose True]
        (sampleBegin (Some ''mp4'')))) = 1"
    unfolding sampleBegin_def sampleEnv_def sampleMeta_def by code_simp
qed

end
